theory Spec2Isabelle
  imports Main
begin

section \<open>Safe-Render adapter\<close>

text \<open>
  The component owns one container (\<open>container.value\<close>, which is \<open>null\<close> before
  mounting) and renders \<open>props.html\<close> into it.  The sanitizer (DOMPurify) is a third-party
  library: it is a parameter of the model, called with the dirty string and the two
  allow-lists, and it may return a string or throw.  A thrown value is \<open>Inl\<close>; the state of
  the container is returned next to the outcome, because a JavaScript exception leaves all
  writes made before it in place.
\<close>

datatype exn = Exn string

type_synonym sanitizer = "string \<Rightarrow> string list \<Rightarrow> string list \<Rightarrow> exn + string"

text \<open>The container reference: \<open>None\<close> is \<open>null\<close>, \<open>Some h\<close> an element whose
  \<open>innerHTML\<close> is \<open>h\<close>.\<close>

type_synonym container = "string option"

definition ALLOWED_TAGS :: "string list" where
  "ALLOWED_TAGS = [''p'', ''br'', ''b'', ''i'', ''em'', ''strong'', ''u'', ''span'', ''div'']"

definition ALLOWED_ATTR :: "string list" where
  "ALLOWED_ATTR = [''style'', ''class'']"

definition renderSafeHtml :: "sanitizer \<Rightarrow> string \<Rightarrow> container \<Rightarrow> (exn + unit) \<times> container" where
  "renderSafeHtml sanitize html container =
     (case container of
        None \<Rightarrow> (Inr (), container)
      | Some previous \<Rightarrow>
          (case sanitize html ALLOWED_TAGS ALLOWED_ATTR of
             Inl e \<Rightarrow> (Inl e, container)
           | Inr sanitizedHtml \<Rightarrow> (Inr (), Some sanitizedHtml)))"

text \<open>A sanitizer that fails on every input, and one that returns its input.\<close>

definition failingSanitizer :: sanitizer where
  "failingSanitizer dirty tags attrs = Inl (Exn ''sanitize failed'')"

definition identitySanitizer :: sanitizer where
  "identitySanitizer dirty tags attrs = Inr dirty"

section \<open>Readiness barrier\<close>

text \<open>
  \<open>preloadImages\<close> creates one promise per image of the collection, in collection order.
  The executor of the \<open>k\<close>-th promise runs at once: a complete image resolves the promise,
  an incomplete one gets \<open>onload\<close> and \<open>onerror\<close> handlers that resolve it.  Images are
  objects, named here by a number, so that the same image may occur twice in a collection
  (the later executor then overwrites the handlers of the earlier one).  A handler is the
  closure \<open>() => resolve()\<close> of one promise and is recorded as the index of that promise.
\<close>

datatype 'a promise = Pending | Fulfilled 'a | Rejected exn

type_synonym img = nat

record barrier =
  onload :: "img \<rightharpoonup> nat"
  onerror :: "img \<rightharpoonup> nat"
  promises :: "unit promise list"

definition noBarrier :: barrier where
  "noBarrier = \<lparr>onload = Map.empty, onerror = Map.empty, promises = []\<rparr>"

definition executor :: "(img \<Rightarrow> bool) \<Rightarrow> img \<Rightarrow> barrier \<Rightarrow> barrier" where
  "executor complete i b =
     (if complete i then b\<lparr>promises := promises b @ [Fulfilled ()]\<rparr>
      else b\<lparr>onload := (onload b)(i \<mapsto> length (promises b)),
             onerror := (onerror b)(i \<mapsto> length (promises b)),
             promises := promises b @ [Pending]\<rparr>)"

text \<open>The state when \<open>preloadImages\<close> reaches its \<open>await\<close>: every executor has run.\<close>

definition preloadImages :: "(img \<Rightarrow> bool) \<Rightarrow> img list \<Rightarrow> barrier" where
  "preloadImages complete images = fold (executor complete) images noBarrier"

text \<open>Calling \<open>resolve()\<close> of promise \<open>k\<close>: a pending promise is fulfilled with
  \<open>undefined\<close>, a settled one stays as it is.\<close>

definition resolve :: "nat \<Rightarrow> barrier \<Rightarrow> barrier" where
  "resolve k b =
     (if k < length (promises b) \<and> promises b ! k = Pending
      then b\<lparr>promises := (promises b)[k := Fulfilled ()]\<rparr> else b)"

text \<open>The rendering engine later delivers load and error events; an event calls the
  handler attached to its image, if there is one.\<close>

datatype event = LoadEvent img | ErrorEvent img

fun fire :: "event \<Rightarrow> barrier \<Rightarrow> barrier" where
  "fire (LoadEvent i) b = (case onload b i of None \<Rightarrow> b | Some k \<Rightarrow> resolve k b)"
| "fire (ErrorEvent i) b = (case onerror b i of None \<Rightarrow> b | Some k \<Rightarrow> resolve k b)"

text \<open>\<open>Promise.all\<close>: rejected as soon as one promise is, fulfilled when all are.\<close>

fun promiseAll :: "'a promise list \<Rightarrow> 'a list promise" where
  "promiseAll [] = Fulfilled []"
| "promiseAll (Rejected e # ps) = Rejected e"
| "promiseAll (Pending # ps) = (case promiseAll ps of Rejected e \<Rightarrow> Rejected e | _ \<Rightarrow> Pending)"
| "promiseAll (Fulfilled v # ps) =
     (case promiseAll ps of
        Rejected e \<Rightarrow> Rejected e
      | Pending \<Rightarrow> Pending
      | Fulfilled vs \<Rightarrow> Fulfilled (v # vs))"

text \<open>The promise of the \<open>async\<close> function: it awaits \<open>Promise.all\<close>, drops the array
  and returns \<open>undefined\<close>.\<close>

definition returned :: "barrier \<Rightarrow> unit promise" where
  "returned b =
     (case promiseAll (promises b) of
        Pending \<Rightarrow> Pending
      | Fulfilled vs \<Rightarrow> Fulfilled ()
      | Rejected e \<Rightarrow> Rejected e)"

text \<open>The barrier after the call and a sequence of events, oldest first.\<close>

definition afterEvents :: "(img \<Rightarrow> bool) \<Rightarrow> img list \<Rightarrow> event list \<Rightarrow> barrier" where
  "afterEvents complete images evs = fold fire evs (preloadImages complete images)"

definition settled :: "(img \<Rightarrow> bool) \<Rightarrow> event list \<Rightarrow> img \<Rightarrow> bool" where
  "settled complete evs i = (complete i \<or> LoadEvent i \<in> set evs \<or> ErrorEvent i \<in> set evs)"




section \<open>The document\<close>

text \<open>
  The normalizers mutate elements they reach through collections, \<open>parentElement\<close> and
  \<open>querySelectorAll\<close>, so the same element can be written through several references.
  An element is therefore named by its address, the list of child indices that leads to it
  from the root of the document, and the elements are kept in a store indexed by address.
  The tree gives the shape of the document; none of the normalizers changes it.  An address
  outside the tree names a detached element: it has neither parent nor descendants.
\<close>

type_synonym ref = "nat list"

datatype tree = Tree "tree list"

fun subtree :: "tree \<Rightarrow> ref \<Rightarrow> tree option" where
  "subtree t [] = Some t"
| "subtree (Tree ts) (i # r) = (if i < length ts then subtree (ts ! i) r else None)"

text \<open>All nodes of a tree in document order (a node before its children, children from
  left to right), the root first.\<close>

fun paths :: "tree \<Rightarrow> ref list" and pathsFrom :: "nat \<Rightarrow> tree list \<Rightarrow> ref list" where
  "paths (Tree ts) = [] # pathsFrom 0 ts"
| "pathsFrom i [] = []"
| "pathsFrom i (t # ts) = map ((#) i) (paths t) @ pathsFrom (Suc i) ts"

text \<open>
  An element carries what the normalizers read and write: its tag (the lower-case local
  name, which is what a type selector compares), whether it is an
  \<open>HTMLElement\<close>, its classes, its content attributes and its inline declaration block.
  A declaration is a value and an important flag; a property that is not declared has the
  empty value, which is what the getters of \<open>element.style\<close> return for it.  Properties
  go by their CSS names (\<open>object-fit\<close> for \<open>style.objectFit\<close>).
\<close>

record element =
  tagName :: string
  isHTMLElement :: bool
  classList :: "string list"
  attributes :: "string \<rightharpoonup> string"
  style :: "string \<Rightarrow> string \<times> bool"

record document =
  tree :: tree
  elements :: "ref \<Rightarrow> element"

definition update :: "ref \<Rightarrow> (element \<Rightarrow> element) \<Rightarrow> document \<Rightarrow> document" where
  "update r f d = d\<lparr>elements := (elements d)(r := f (elements d r))\<rparr>"

text \<open>
  The rendering engine resolves the style of an element from the document as it is when
  it is asked: \<open>window.getComputedStyle(element).property\<close> is a function of the document,
  the element and the property, and an inline declaration written a line earlier is part
  of the document it sees.  The engine is a parameter of the normalizers that ask it; a
  property it does not resolve is the empty string.
\<close>

type_synonym engine = "document \<Rightarrow> ref \<Rightarrow> string \<Rightarrow> string"

definition getAttribute :: "element \<Rightarrow> string \<Rightarrow> string option" where
  "getAttribute e name = attributes e name"

definition setAttribute :: "string \<Rightarrow> string \<Rightarrow> element \<Rightarrow> element" where
  "setAttribute name v e = e\<lparr>attributes := (attributes e)(name \<mapsto> v)\<rparr>"

text \<open>\<open>!value\<close> for the result of \<open>getAttribute\<close>: \<open>null\<close> and the empty string are falsy.\<close>

definition falsy :: "string option \<Rightarrow> bool" where
  "falsy a = (case a of None \<Rightarrow> True | Some v \<Rightarrow> v = '''')"

text \<open>String concatenation turns \<open>null\<close> into the text \<open>null\<close>.\<close>

definition toString :: "string option \<Rightarrow> string" where
  "toString a = (case a of None \<Rightarrow> ''null'' | Some v \<Rightarrow> v)"

text \<open>\<open>a || b\<close> on strings.\<close>

definition orElse :: "string \<Rightarrow> string \<Rightarrow> string" where
  "orElse a b = (if a \<noteq> '''' then a else b)"

subsection \<open>The inline declaration block\<close>

text \<open>
  An assignment to \<open>element.style\<close> goes through the parser of the style implementation:
  a value that is not in the grammar of the property is dropped, and the declaration stays
  as it was.  The normalizers compute the value they assign only for \<open>width\<close> and \<open>height\<close>
  (an attribute followed by \<open>px\<close>); every other value they assign is a constant that
  parses, or a value that was read from a declaration or from the engine.  So the model has
  the grammar of \<open>width\<close> and \<open>height\<close>, and takes every value for the other properties.

  A value of \<open>width\<close> or \<open>height\<close> is a keyword, a percentage or a length, in any case and
  between optional white space.  A length is a number followed by a unit; the number is
  not negative, and zero needs no unit.  A number is an optional sign, digits with an
  optional fraction (or a fraction alone), and an optional exponent, as the CSS tokenizer
  reads it.  Functional notations (\<open>calc\<close>, \<open>var\<close>) are left out: the model does not parse
  them.  The declaration keeps the text that was assigned, and a shorthand (\<open>border\<close>,
  \<open>padding\<close>) is one declaration; a style implementation may spell the same value
  differently when it is read back (\<open>0\<close> as \<open>0px\<close>).
\<close>

definition whitespace :: "char \<Rightarrow> bool" where
  "whitespace c = (c \<in> set [CHR '' '', CHR 0x09, CHR 0x0A, CHR 0x0C, CHR 0x0D])"

definition digit :: "char \<Rightarrow> bool" where
  "digit c = (c \<in> set ''0123456789'')"

definition trim :: "string \<Rightarrow> string" where
  "trim s = rev (dropWhile whitespace (rev (dropWhile whitespace s)))"

definition lowerCase :: "string \<Rightarrow> string" where
  "lowerCase s =
     map (\<lambda>c. case map_of (zip ''ABCDEFGHIJKLMNOPQRSTUVWXYZ'' ''abcdefghijklmnopqrstuvwxyz'') c of
                 None \<Rightarrow> c | Some l \<Rightarrow> l) s"

definition afterSign :: "string \<Rightarrow> string" where
  "afterSign s = (case s of [] \<Rightarrow> [] | c # t \<Rightarrow> if c = CHR ''+'' \<or> c = CHR ''-'' then t else s)"

definition afterFraction :: "string \<Rightarrow> string" where
  "afterFraction s =
     (case s of c # e # t \<Rightarrow> if c = CHR ''.'' \<and> digit e then dropWhile digit t else s | _ \<Rightarrow> s)"

definition afterExponent :: "string \<Rightarrow> string" where
  "afterExponent s =
     (case s of
        [] \<Rightarrow> s
      | c # t \<Rightarrow> if c = CHR ''e'' \<and> afterSign t \<noteq> [] \<and> digit (hd (afterSign t))
                 then dropWhile digit (afterSign t) else s)"

text \<open>Whether a text starts with a number, and what follows the number.\<close>

definition startsNumber :: "string \<Rightarrow> bool" where
  "startsNumber s =
     (case afterSign s of
        [] \<Rightarrow> False
      | c # t \<Rightarrow> digit c \<or> (c = CHR ''.'' \<and> t \<noteq> [] \<and> digit (hd t)))"

definition afterNumber :: "string \<Rightarrow> string" where
  "afterNumber s = afterExponent (afterFraction (dropWhile digit (afterSign s)))"

text \<open>The number a text starts with is not zero when its mantissa has a digit other
  than \<open>0\<close>; it is negative when it is not zero and its sign is \<open>-\<close>.\<close>

definition nonzero :: "string \<Rightarrow> bool" where
  "nonzero s = list_ex (\<lambda>c. c \<in> set ''123456789'') (takeWhile (\<lambda>c. c \<noteq> CHR ''e'') s)"

definition negative :: "string \<Rightarrow> bool" where
  "negative s = (s \<noteq> [] \<and> hd s = CHR ''-'' \<and> nonzero s)"

definition lengthUnits :: "string list" where
  "lengthUnits = [''px'', ''em'', ''rem'', ''ex'', ''ch'', ''vw'', ''vh'', ''vmin'', ''vmax'',
                  ''cm'', ''mm'', ''q'', ''in'', ''pt'', ''pc'']"

definition sizeKeywords :: "string list" where
  "sizeKeywords = [''auto'', ''min-content'', ''max-content'', ''fit-content'',
                   ''inherit'', ''initial'', ''unset'', ''revert'', ''revert-layer'']"

definition sizeValue :: "string \<Rightarrow> bool" where
  "sizeValue v =
     (let w = lowerCase (trim v)
      in w \<in> set sizeKeywords
       \<or> (startsNumber w \<and> \<not> negative w
          \<and> (afterNumber w \<in> set (''%'' # lengthUnits) \<or> (afterNumber w = [] \<and> \<not> nonzero w))))"

definition parses :: "string \<Rightarrow> string \<Rightarrow> bool" where
  "parses property v = (if property \<in> set [''width'', ''height''] then sizeValue v else True)"

text \<open>The getter \<open>element.style.property\<close>.\<close>

definition getPropertyValue :: "element \<Rightarrow> string \<Rightarrow> string" where
  "getPropertyValue e property = fst (style e property)"

text \<open>The assignment \<open>element.style.property = value\<close>: the empty value removes the
  declaration; a value that parses replaces it, and the new declaration is not important;
  any other value is dropped.\<close>

definition setStyle :: "string \<Rightarrow> string \<Rightarrow> element \<Rightarrow> element" where
  "setStyle property v e =
     (if v = '''' then e\<lparr>style := (style e)(property := ('''', False))\<rparr>
      else if parses property v then e\<lparr>style := (style e)(property := (v, False))\<rparr>
      else e)"

text \<open>\<open>element.style.setProperty(property, value, priority)\<close>.\<close>

definition setProperty :: "string \<Rightarrow> string \<Rightarrow> string \<Rightarrow> element \<Rightarrow> element" where
  "setProperty property v priority e =
     (if v = '''' then e\<lparr>style := (style e)(property := ('''', False))\<rparr>
      else if \<not> parses property v then e
      else if priority = ''important'' then e\<lparr>style := (style e)(property := (v, True))\<rparr>
      else if priority = '''' then e\<lparr>style := (style e)(property := (v, False))\<rparr>
      else e)"

text \<open>A run of assignments to \<open>element.style\<close>, in the order of the source.\<close>

fun assign :: "(string \<times> string) list \<Rightarrow> element \<Rightarrow> element" where
  "assign [] e = e"
| "assign ((property, v) # rest) e = assign rest (setStyle property v e)"

subsection \<open>The tree and selectors\<close>

definition parentElement :: "document \<Rightarrow> ref \<Rightarrow> ref option" where
  "parentElement d r = (if r \<noteq> [] \<and> subtree (tree d) r \<noteq> None then Some (butlast r) else None)"

text \<open>The proper descendants of an element, in document order.\<close>

definition descendants :: "document \<Rightarrow> ref \<Rightarrow> ref list" where
  "descendants d r =
     (case subtree (tree d) r of None \<Rightarrow> [] | Some t \<Rightarrow> map ((@) r) (tl (paths t)))"

text \<open>The selectors the normalizers use: a tag, a class, an attribute with a value, and
  \<open>*\<close>.  A selector list matches when one of its members does.\<close>

datatype selector = TypeSel string | ClassSel string | AttrSel string string | Universal

fun matches :: "selector \<Rightarrow> element \<Rightarrow> bool" where
  "matches (TypeSel t) e = (tagName e = t)"
| "matches (ClassSel c) e = (c \<in> set (classList e))"
| "matches (AttrSel a v) e = (attributes e a = Some v)"
| "matches Universal e = True"

definition querySelectorAll :: "document \<Rightarrow> ref \<Rightarrow> selector list \<Rightarrow> ref list" where
  "querySelectorAll d r sels =
     filter (\<lambda>q. list_ex (\<lambda>s. matches s (elements d q)) sels) (descendants d r)"

definition querySelector :: "document \<Rightarrow> ref \<Rightarrow> selector list \<Rightarrow> ref option" where
  "querySelector d r sels = (case querySelectorAll d r sels of [] \<Rightarrow> None | q # qs \<Rightarrow> Some q)"

section \<open>Image normalizer\<close>

definition applyObjectFitStyles :: "string \<Rightarrow> element \<Rightarrow> element" where
  "applyObjectFitStyles objectFit img =
     (if objectFit = ''contain'' then
        assign [(''object-fit'', ''contain''), (''height'', ''100%''), (''width'', ''auto''),
                (''max-width'', ''none''), (''position'', ''absolute''), (''top'', ''0''),
                (''left'', ''50%''), (''transform'', ''translateX(-50%)'')] img
      else if objectFit = ''cover'' then
        assign [(''object-fit'', ''cover''), (''width'', ''100%''), (''height'', ''100%''),
                (''position'', ''absolute''), (''top'', ''0''), (''left'', ''0'')] img
      else if objectFit = ''fill'' then
        assign [(''width'', ''100%''), (''height'', ''100%''), (''object-fit'', ''fill'')] img
      else if objectFit = ''none'' then
        assign [(''max-height'', ''100%''), (''width'', ''auto''), (''position'', ''absolute''),
                (''top'', ''50%''), (''left'', ''50%''),
                (''transform'', ''translate(-50%, -50%)'')] img
      else if objectFit = ''scale-down'' then
        assign [(''max-height'', ''100%''), (''width'', ''auto''), (''max-width'', ''none''),
                (''position'', ''absolute''), (''top'', ''50%''), (''left'', ''50%''),
                (''transform'', ''translate(-50%, -50%)'')] img
      else img)"

text \<open>The value of the constant \<open>objectFit\<close> of \<open>processImages\<close> (line 33) for an image,
  in the document as it is when that line runs.\<close>

definition objectFit :: "engine \<Rightarrow> string \<Rightarrow> ref \<Rightarrow> document \<Rightarrow> string" where
  "objectFit getComputedStyle objectFitDefault img d =
     (let computedStyle = getComputedStyle d img
      in orElse (computedStyle ''object-fit'')
           (orElse (getPropertyValue (elements d img) ''object-fit'') objectFitDefault))"

definition styleContainer :: "element \<Rightarrow> element" where
  "styleContainer container =
     assign [(''position'', ''relative''), (''overflow'', ''hidden''),
             (''box-sizing'', ''border-box'')] container"

text \<open>The body of the loop of \<open>processImages\<close>.  \<open>crossOrigin\<close> reflects the content
  attribute \<open>crossorigin\<close>.\<close>

definition processImage :: "engine \<Rightarrow> string \<Rightarrow> ref \<Rightarrow> document \<Rightarrow> document" where
  "processImage getComputedStyle objectFitDefault img d =
     (let d1 = update img (setAttribute ''crossorigin'' ''anonymous'') d;
          container = parentElement d1 img;
          d2 = update img (setStyle ''display'' ''block'') d1;
          d3 = update img (setStyle ''visibility'' ''visible'') d2;
          d4 = update img (applyObjectFitStyles (objectFit getComputedStyle objectFitDefault img d3)) d3
      in case container of
           None \<Rightarrow> d4
         | Some c \<Rightarrow> if isHTMLElement (elements d4 c) then update c styleContainer d4 else d4)"

text \<open>The second argument is optional; when it is left out it is \<open>cover\<close>.\<close>

definition processImages :: "engine \<Rightarrow> ref list \<Rightarrow> string option \<Rightarrow> document \<Rightarrow> document" where
  "processImages getComputedStyle images objectFitDefault d =
     fold (processImage getComputedStyle (case objectFitDefault of None \<Rightarrow> ''cover'' | Some v \<Rightarrow> v))
       images d"

text \<open>The resolution order as the specification words it: inline, then computed, then
  the default.\<close>

definition specObjectFit :: "engine \<Rightarrow> string \<Rightarrow> ref \<Rightarrow> document \<Rightarrow> string" where
  "specObjectFit getComputedStyle objectFitDefault img d =
     orElse (getPropertyValue (elements d img) ''object-fit'')
       (orElse (getComputedStyle d img ''object-fit'') objectFitDefault)"

section \<open>SVG normalizer\<close>

definition processPolygon :: "element \<Rightarrow> element" where
  "processPolygon polygon =
     (let p1 = (if falsy (getAttribute polygon ''fill'')
                then setAttribute ''fill'' ''#E2E8F0'' polygon else polygon);
          p2 = (if falsy (getAttribute p1 ''stroke'')
                then setAttribute ''stroke'' ''#CBD5E1'' p1 else p1)
      in if falsy (getAttribute p2 ''stroke-width'')
         then setAttribute ''stroke-width'' ''1'' p2 else p2)"

text \<open>What the body of the loop does to the SVG root itself.\<close>

definition processSvgRoot :: "element \<Rightarrow> element" where
  "processSvgRoot svg =
     (let s1 = (if falsy (getAttribute svg ''xmlns'')
                then setAttribute ''xmlns'' ''http://www.w3.org/2000/svg'' svg else svg);
          s2 = (if getPropertyValue s1 ''width'' = ''''
                then setStyle ''width'' (toString (getAttribute s1 ''width'') @ ''px'') s1 else s1);
          s3 = (if getPropertyValue s2 ''height'' = ''''
                then setStyle ''height'' (toString (getAttribute s2 ''height'') @ ''px'') s2 else s2);
          s4 = setStyle ''display'' ''block'' s3
      in setStyle ''visibility'' ''visible'' s4)"

definition processSvgElement :: "ref \<Rightarrow> document \<Rightarrow> document" where
  "processSvgElement svg d =
     (let d1 = update svg processSvgRoot d;
          polygons = querySelectorAll d1 svg [TypeSel ''polygon'']
      in fold (\<lambda>polygon. update polygon processPolygon) polygons d1)"

definition processSvgElements :: "ref list \<Rightarrow> document \<Rightarrow> document" where
  "processSvgElements svgElements d = fold processSvgElement svgElements d"

section \<open>Text normalizer, shapes and controls\<close>

definition paints :: "string \<Rightarrow> bool" where
  "paints backgroundColor =
     (backgroundColor \<noteq> '''' \<and> backgroundColor \<noteq> ''rgba(0, 0, 0, 0)''
      \<and> backgroundColor \<noteq> ''transparent'')"

definition processBlockBackground :: "engine \<Rightarrow> ref \<Rightarrow> document \<Rightarrow> document" where
  "processBlockBackground getComputedStyle element d =
     (let computedStyle = getComputedStyle d element;
          backgroundColor = computedStyle ''background-color''
      in if paints backgroundColor
         then update element (setProperty ''padding'' ''8px'' ''important'')
                (update element (setProperty ''background-color'' backgroundColor ''important'') d)
         else d)"

definition reassert :: "string \<Rightarrow> element \<Rightarrow> element" where
  "reassert property e =
     (if getPropertyValue e property \<noteq> ''''
      then setProperty property (getPropertyValue e property) ''important'' e else e)"

definition applyFontStyles :: "ref \<Rightarrow> document \<Rightarrow> document" where
  "applyFontStyles contentElement d =
     update contentElement (reassert ''font-weight'')
       (update contentElement (reassert ''font-size'')
         (update contentElement (reassert ''font-family'') d))"

text \<open>The body of the loop over the descendants of the content element.\<close>

definition inheritColor :: "ref \<Rightarrow> ref \<Rightarrow> document \<Rightarrow> document" where
  "inheritColor contentElement node d =
     (if isHTMLElement (elements d node) \<and> getPropertyValue (elements d node) ''color'' = ''''
      then update node
             (setProperty ''color'' (getPropertyValue (elements d contentElement) ''color'')
                ''important'') d
      else d)"

definition processContentElement :: "engine \<Rightarrow> ref \<Rightarrow> ref \<Rightarrow> document \<Rightarrow> document" where
  "processContentElement getComputedStyle contentElement parent d =
     (let d1 = (if getPropertyValue (elements d contentElement) ''color'' \<noteq> ''''
                then fold (inheritColor contentElement)
                       (querySelectorAll d contentElement [Universal]) d
                else d);
          d2 = applyFontStyles contentElement d1;
          computedStyle = getComputedStyle d2 parent;
          backgroundColor = computedStyle ''background-color''
      in if paints backgroundColor
         then update contentElement
                (setProperty ''background-color'' ''transparent'' ''important'') d2
         else d2)"

text \<open>The body of the loop of \<open>processTextElements\<close>.\<close>

definition processTextElement :: "engine \<Rightarrow> ref \<Rightarrow> document \<Rightarrow> document" where
  "processTextElement getComputedStyle element d =
     (if \<not> isHTMLElement (elements d element) then d
      else let d1 = processBlockBackground getComputedStyle element d
           in case querySelector d1 element [ClassSel ''element-content''] of
                None \<Rightarrow> d1
              | Some contentElement \<Rightarrow>
                  if isHTMLElement (elements d1 contentElement)
                  then processContentElement getComputedStyle contentElement element d1 else d1)"

definition processTextElements :: "engine \<Rightarrow> ref list \<Rightarrow> document \<Rightarrow> document" where
  "processTextElements getComputedStyle textElements d =
     fold (processTextElement getComputedStyle) textElements d"

definition processShapeElement :: "ref \<Rightarrow> document \<Rightarrow> document" where
  "processShapeElement element d =
     (if \<not> isHTMLElement (elements d element) then d
      else case querySelector d element [TypeSel ''polygon''] of
             None \<Rightarrow> d
           | Some polygon \<Rightarrow>
               update element
                 (assign [(''background-color'', ''transparent''), (''border'', ''none'')]) d)"


definition uiSelectors :: "selector list" where
  "uiSelectors =
     [ClassSel ''resize-handle'', ClassSel ''scroll-control'', ClassSel ''v-navigation-drawer'',
      ClassSel ''v-overlay'', ClassSel ''v-menu'', ClassSel ''v-btn--icon'', TypeSel ''button'',
      AttrSel ''role'' ''button'', ClassSel ''control-button'', ClassSel ''handle'',
      ClassSel ''v-slider'', ClassSel ''v-input__control'']"

definition hideElement :: "ref \<Rightarrow> document \<Rightarrow> document" where
  "hideElement el d =
     (if isHTMLElement (elements d el)
      then update el (assign [(''display'', ''none''), (''visibility'', ''hidden''),
                              (''opacity'', ''0'')]) d
      else d)"

definition hideUiControls :: "ref \<Rightarrow> document \<Rightarrow> document" where
  "hideUiControls pageElement d =
     fold hideElement (querySelectorAll d pageElement uiSelectors) d"

section \<open>Reading the result\<close>

text \<open>An element declares a list of properties when each has the given value, without
  the important flag; it declares them with highest precedence when the flag is set.  An
  element keeps a list of properties when their declarations are those of before.\<close>

definition declares :: "element \<Rightarrow> (string \<times> string) list \<Rightarrow> bool" where
  "declares e kvs = list_all (\<lambda>(k, v). style e k = (v, False)) kvs"

definition declaresImportant :: "element \<Rightarrow> (string \<times> string) list \<Rightarrow> bool" where
  "declaresImportant e kvs = list_all (\<lambda>(k, v). style e k = (v, True)) kvs"

definition keeps :: "element \<Rightarrow> element \<Rightarrow> string list \<Rightarrow> bool" where
  "keeps before after ks = list_all (\<lambda>k. style after k = style before k) ks"

text \<open>No image of the collection is the parent of an image of the collection (an
  \<open>img\<close> element has no children in a parsed document).\<close>

definition imagesAreLeaves :: "document \<Rightarrow> ref list \<Rightarrow> bool" where
  "imagesAreLeaves d images =
     list_all (\<lambda>i. case parentElement d i of None \<Rightarrow> True | Some c \<Rightarrow> c \<notin> set images) images"

text \<open>The document when the body of the loop of \<open>processImages\<close> has run up to line 29
  for an image: the cross-origin attribute, \<open>display\<close> and \<open>visibility\<close> are set, and the
  engine is asked next.\<close>

definition madeVisible :: "ref \<Rightarrow> document \<Rightarrow> document" where
  "madeVisible img d =
     update img (\<lambda>e. setStyle ''visibility'' ''visible''
                       (setStyle ''display'' ''block''
                         (setAttribute ''crossorigin'' ''anonymous'' e))) d"

section \<open>Engines\<close>

text \<open>
  Two documents are restyled versions of each other when they differ at most in what the
  image and the text normalizer write: inline declarations and \<open>crossorigin\<close> attributes.
  Shape, tags, classes and every other attribute, which are what the selectors of a style
  sheet usually look at, are the same.
\<close>

definition restyled :: "document \<Rightarrow> document \<Rightarrow> bool" where
  "restyled d d' =
     (tree d' = tree d
      \<and> (\<forall>r. tagName (elements d' r) = tagName (elements d r)
             \<and> isHTMLElement (elements d' r) = isHTMLElement (elements d r)
             \<and> classList (elements d' r) = classList (elements d r)
             \<and> (\<forall>n. n \<noteq> ''crossorigin'' \<longrightarrow>
                    attributes (elements d' r) n = attributes (elements d r) n)))"



text \<open>
  An engine of the usual kind.  The style sheets give every element a value for a
  property, important or not (selector matching is done: the sheet is a function of the
  element); the inline declaration wins over it unless the sheet is important and the
  inline declaration is not.  The resolved value of the keyword \<open>transparent\<close> is
  \<open>rgba(0, 0, 0, 0)\<close>.
\<close>

type_synonym sheet = "ref \<Rightarrow> string \<Rightarrow> string \<times> bool"

definition computedValue :: "string \<Rightarrow> string \<Rightarrow> string" where
  "computedValue property v =
     (if property = ''background-color'' \<and> v = ''transparent'' then ''rgba(0, 0, 0, 0)'' else v)"

definition cascade :: "sheet \<Rightarrow> engine" where
  "cascade sheet d r property =
     (let inline = style (elements d r) property;
          rule = sheet r property
      in computedValue property
           (if fst inline \<noteq> '''' \<and> (snd inline \<or> \<not> snd rule) then fst inline else fst rule))"

definition noSheet :: sheet where
  "noSheet r property = ('''', False)"

text \<open>An engine that resolves nothing, as the stub of a test is; and an engine whose
  sheet has a rule keyed on the inline style of the element: \<open>object-fit\<close> is \<open>contain\<close>,
  but an important rule makes it \<open>cover\<close> for an element whose \<open>style\<close> attribute declares
  \<open>object-fit: contain\<close>.\<close>

definition unresolved :: engine where
  "unresolved d r property = ''''"



section \<open>Example documents\<close>

definition blank :: element where
  "blank = \<lparr>tagName = ''div'', isHTMLElement = True, classList = [], attributes = Map.empty,
            style = (\<lambda>k. ('''', False))\<rparr>"

text \<open>A container with one image, as in the tests of the repository; the inline
  \<open>object-fit\<close> of the image is a parameter.  Its sheet gives the image an \<open>object-fit\<close>,
  important or not.\<close>

definition imageDocument :: "string \<Rightarrow> document" where
  "imageDocument inlineFit =
     \<lparr>tree = Tree [Tree []],
      elements = (\<lambda>r. blank)
        ([0] := blank\<lparr>tagName := ''img'',
                       style := (\<lambda>k. ('''', False))(''object-fit'' := (inlineFit, False))\<rparr>)\<rparr>"

definition imageSheet :: "string \<Rightarrow> bool \<Rightarrow> sheet" where
  "imageSheet fit important = noSheet([0] := (noSheet [0])(''object-fit'' := (fit, important)))"

text \<open>An SVG root with a height attribute and no width attribute, and two polygons: one
  without attributes, one with an empty \<open>fill\<close> and a stroke.  The same root with the width
  attribute \<open>100%\<close>, and with the width attribute \<open>300\<close>.\<close>

definition svgDocument :: document where
  "svgDocument =
     \<lparr>tree = Tree [Tree [], Tree []],
      elements = (\<lambda>r. blank)
        ([] := blank\<lparr>tagName := ''svg'', isHTMLElement := False,
                      attributes := [''height'' \<mapsto> ''24'']\<rparr>,
         [0] := blank\<lparr>tagName := ''polygon'', isHTMLElement := False\<rparr>,
         [1] := blank\<lparr>tagName := ''polygon'', isHTMLElement := False,
                       attributes := [''fill'' \<mapsto> '''', ''stroke'' \<mapsto> ''#000'']\<rparr>)\<rparr>"

definition sizedSvgDocument :: "string \<Rightarrow> document" where
  "sizedSvgDocument width =
     update [] (setAttribute ''width'' width) svgDocument"

text \<open>A text block whose background comes from a style sheet, its content element with
  an inline colour, and one element inside the content without a colour.\<close>

definition textDocument :: document where
  "textDocument =
     \<lparr>tree = Tree [Tree [Tree []]],
      elements = (\<lambda>r. blank)
        ([] := blank\<lparr>classList := [''text-element'']\<rparr>,
         [0] := blank\<lparr>classList := [''element-content''],
                       style := (\<lambda>k. ('''', False))(''color'' := (''rgb(10,10,10)'', False))\<rparr>,
         [0, 0] := blank\<lparr>tagName := ''span''\<rparr>)\<rparr>"

definition textSheet :: sheet where
  "textSheet = noSheet([] := (noSheet [])(''background-color'' := (''rgb(200,200,200)'', False)))"


text \<open>A page with a button, an SVG element of class \<open>handle\<close> and a paragraph.\<close>

definition controlsDocument :: document where
  "controlsDocument =
     \<lparr>tree = Tree [Tree [], Tree [], Tree []],
      elements = (\<lambda>r. blank)
        ([0] := blank\<lparr>tagName := ''button''\<rparr>,
         [1] := blank\<lparr>tagName := ''svg'', isHTMLElement := False, classList := [''handle'']\<rparr>,
         [2] := blank\<lparr>tagName := ''p''\<rparr>)\<rparr>"

section \<open>Definitions used in the proofs\<close>

text \<open>The assignments of each fit emulation as a list, and the effect of one
  polygon default on an attribute.\<close>

definition fitting :: "string \<Rightarrow> (string \<times> string) list" where
  "fitting m =
     (if m = ''contain'' then
        [(''object-fit'', ''contain''), (''height'', ''100%''), (''width'', ''auto''),
         (''max-width'', ''none''), (''position'', ''absolute''), (''top'', ''0''),
         (''left'', ''50%''), (''transform'', ''translateX(-50%)'')]
      else if m = ''cover'' then
        [(''object-fit'', ''cover''), (''width'', ''100%''), (''height'', ''100%''),
         (''position'', ''absolute''), (''top'', ''0''), (''left'', ''0'')]
      else if m = ''fill'' then
        [(''width'', ''100%''), (''height'', ''100%''), (''object-fit'', ''fill'')]
      else if m = ''none'' then
        [(''max-height'', ''100%''), (''width'', ''auto''), (''position'', ''absolute''),
         (''top'', ''50%''), (''left'', ''50%''), (''transform'', ''translate(-50%, -50%)'')]
      else if m = ''scale-down'' then
        [(''max-height'', ''100%''), (''width'', ''auto''), (''max-width'', ''none''),
         (''position'', ''absolute''), (''top'', ''50%''), (''left'', ''50%''),
         (''transform'', ''translate(-50%, -50%)'')]
      else [])"

definition orDefault :: "string \<Rightarrow> string option \<Rightarrow> string option" where
  "orDefault v a = (if falsy a then Some v else a)"

text \<open>A list of assignments is accepted when every value is not empty and parses.\<close>

definition accepted :: "(string \<times> string) list \<Rightarrow> bool" where
  "accepted kvs = list_all (\<lambda>(k, v). v \<noteq> '''' \<and> parses k v) kvs"

text \<open>A document is its frame (the tree and what no normalizer writes) together with
  one column per style property and per attribute.\<close>

definition frame :: "document \<Rightarrow> document" where
  "frame d = d\<lparr>elements := \<lambda>r. (elements d r)\<lparr>attributes := Map.empty, style := \<lambda>k. ('''', False)\<rparr>\<rparr>"



text \<open>Raising a declaration to highest precedence, as \<open>reassert\<close> does.\<close>

definition promote :: "string \<times> bool \<Rightarrow> string \<times> bool" where
  "promote x = (if fst x \<noteq> '''' then (fst x, True) else x)"

text \<open>One step of the text normalizer on the colour column, on one cell of a font
  column, and on the columns of the background and the padding together.  The shape and
  the classes are read from the frame of the document; \<open>resolved\<close> is the background the
  engine resolved for each block before the run.\<close>

definition inheritColumn :: "document \<Rightarrow> ref \<Rightarrow> (ref \<Rightarrow> string \<times> bool) \<Rightarrow> ref \<Rightarrow> string \<times> bool" where
  "inheritColumn i a c =
     (if isHTMLElement (elements i a)
      then (case querySelector i a [ClassSel ''element-content''] of
              None \<Rightarrow> c
            | Some content \<Rightarrow>
                if isHTMLElement (elements i content) \<and> fst (c content) \<noteq> ''''
                then (\<lambda>r. if r \<in> set (descendants i content) \<and> isHTMLElement (elements i r)
                              \<and> fst (c r) = ''''
                          then (fst (c content), True) else c r)
                else c)
      else c)"

definition fontCell :: "document \<Rightarrow> ref \<Rightarrow> ref \<Rightarrow> string \<Rightarrow> string \<times> bool \<Rightarrow> string \<times> bool" where
  "fontCell i a r k x =
     (if isHTMLElement (elements i a)
         \<and> querySelector i a [ClassSel ''element-content''] = Some r
         \<and> isHTMLElement (elements i r)
         \<and> (k = ''font-family'' \<or> k = ''font-size'' \<or> k = ''font-weight'')
      then promote x else x)"

definition paintColumns ::
  "document \<Rightarrow> (ref \<Rightarrow> string) \<Rightarrow> ref
     \<Rightarrow> (ref \<Rightarrow> string \<times> bool) \<times> (ref \<Rightarrow> string \<times> bool)
     \<Rightarrow> (ref \<Rightarrow> string \<times> bool) \<times> (ref \<Rightarrow> string \<times> bool)" where
  "paintColumns i resolved a columns =
     (case columns of (background, padding) \<Rightarrow>
        if isHTMLElement (elements i a) \<and> paints (resolved a)
           \<and> background a \<noteq> (''transparent'', True)
        then ((case querySelector i a [ClassSel ''element-content''] of
                 None \<Rightarrow> background(a := (resolved a, True))
               | Some content \<Rightarrow>
                   if isHTMLElement (elements i content)
                   then (background(a := (resolved a, True)))(content := (''transparent'', True))
                   else background(a := (resolved a, True))),
              padding(a := (''8px'', True)))
        else (background, padding))"


section \<open>Proofs: the readiness barrier\<close>

lemma promiseAll_Rejected: "promiseAll ps = Rejected e \<Longrightarrow> Rejected e \<in> set ps"
  by (induction ps rule: promiseAll.induct) (auto split: promise.splits)

lemma promiseAll_Fulfilled: "(\<exists>vs. promiseAll ps = Fulfilled vs) \<longleftrightarrow> (\<forall>p\<in>set ps. \<exists>v. p = Fulfilled v)"
  by (induction ps rule: promiseAll.induct) (auto split: promise.splits)

lemma returned_Rejected: "returned b = Rejected e \<Longrightarrow> Rejected e \<in> set (promises b)"
  by (auto simp: returned_def split: promise.splits dest: promiseAll_Rejected)

lemma returned_Fulfilled: "returned b = Fulfilled () \<longleftrightarrow> (\<forall>p\<in>set (promises b). p = Fulfilled ())"
proof -
  have "returned b = Fulfilled () \<longleftrightarrow> (\<exists>vs. promiseAll (promises b) = Fulfilled vs)"
    by (auto simp: returned_def split: promise.splits)
  then show ?thesis by (simp add: promiseAll_Fulfilled)
qed

subsection \<open>After the executors\<close>

lemma promises_executor:
  "promises (executor c i b) = promises b @ [if c i then Fulfilled () else Pending]"
  by (simp add: executor_def)

lemma onload_executor:
  "onload (executor c a b) i = (if \<not> c a \<and> i = a then Some (length (promises b)) else onload b i)"
  by (simp add: executor_def)

lemma onerror_executor:
  "onerror (executor c a b) i = (if \<not> c a \<and> i = a then Some (length (promises b)) else onerror b i)"
  by (simp add: executor_def)

lemma promises_fold_executor:
  "promises (fold (executor c) images b) =
     promises b @ map (\<lambda>i. if c i then Fulfilled () else Pending) images"
  by (induction images arbitrary: b) (simp_all add: promises_executor)

lemma onerror_fold_executor:
  "onerror b = onload b \<Longrightarrow> onerror (fold (executor c) images b) = onload (fold (executor c) images b)"
proof (induction images arbitrary: b)
  case Nil
  then show ?case by simp
next
  case (Cons a images)
  have "onerror (executor c a b) = onload (executor c a b)"
    using Cons.prems by (auto simp: onload_executor onerror_executor)
  then show ?case by (simp add: Cons.IH)
qed

lemma onload_fold_executor_sound:
  "onload (fold (executor c) images b) i = Some k \<Longrightarrow>
     onload b i = Some k \<or>
     (length (promises b) \<le> k \<and> k - length (promises b) < length images
        \<and> images ! (k - length (promises b)) = i \<and> \<not> c i)"
proof (induction images arbitrary: b)
  case Nil
  then show ?case by simp
next
  case (Cons a images)
  from Cons.IH[OF Cons.prems[simplified]]
  show ?case
    by (auto simp: onload_executor promises_executor Suc_diff_le nth_Cons' split: if_splits)
qed

lemma onload_fold_executor_keep:
  "a \<notin> set images \<Longrightarrow> onload (fold (executor c) images b) a = onload b a"
  by (induction images arbitrary: b) (auto simp: onload_executor)

lemma onload_fold_executor_complete:
  "distinct images \<Longrightarrow> k < length images \<Longrightarrow> \<not> c (images ! k) \<Longrightarrow>
     onload (fold (executor c) images b) (images ! k) = Some (length (promises b) + k)"
proof (induction images arbitrary: b k)
  case Nil
  then show ?case by simp
next
  case (Cons a images)
  show ?case
  proof (cases k)
    case 0
    with Cons.prems show ?thesis
      by (simp add: onload_fold_executor_keep onload_executor)
  next
    case (Suc j)
    with Cons.prems have "onload (fold (executor c) images (executor c a b)) (images ! j)
        = Some (length (promises (executor c a b)) + j)"
      by (intro Cons.IH) auto
    then show ?thesis using Suc by (simp add: promises_executor)
  qed
qed

subsection \<open>Events\<close>

lemma resolve_handlers [simp]: "onload (resolve k b) = onload b" "onerror (resolve k b) = onerror b"
  by (simp_all add: resolve_def)

lemma fire_handlers [simp]: "onload (fire ev b) = onload b" "onerror (fire ev b) = onerror b"
  by (cases ev; simp split: option.splits)+

lemma fold_fire_handlers [simp]:
  "onload (fold fire evs b) = onload b" "onerror (fold fire evs b) = onerror b"
  by (induction evs arbitrary: b) simp_all

lemma length_resolve [simp]: "length (promises (resolve k b)) = length (promises b)"
  by (simp add: resolve_def)

lemma length_fire [simp]: "length (promises (fire ev b)) = length (promises b)"
  by (cases ev; simp split: option.splits)

lemma length_fold_fire [simp]: "length (promises (fold fire evs b)) = length (promises b)"
  by (induction evs arbitrary: b) simp_all

lemma resolve_nth:
  "j < length (promises b) \<Longrightarrow>
   promises (resolve k b) ! j = (if j = k \<and> promises b ! j = Pending then Fulfilled () else promises b ! j)"
  by (auto simp: resolve_def)


lemma fire_nth:
  "j < length (promises b) \<Longrightarrow>
   promises (fire ev b) ! j =
     (if promises b ! j = Pending \<and>
         (case ev of LoadEvent i \<Rightarrow> onload b i = Some j | ErrorEvent i \<Rightarrow> onerror b i = Some j)
      then Fulfilled () else promises b ! j)"
  by (cases ev) (auto simp: resolve_nth split: option.splits)

lemma fold_fire_Rejected:
  "j < length (promises b) \<Longrightarrow> promises (fold fire evs b) ! j = Rejected e \<Longrightarrow>
   promises b ! j = Rejected e"
  by (induction evs rule: rev_induct) (auto simp: fire_nth simp del: fire.simps split: if_splits)

lemma fold_fire_Fulfilled:
  "j < length (promises b) \<Longrightarrow> promises (fold fire evs b) ! j = Fulfilled () \<Longrightarrow>
   promises b ! j = Fulfilled () \<or>
   (\<exists>i. (LoadEvent i \<in> set evs \<and> onload b i = Some j) \<or> (ErrorEvent i \<in> set evs \<and> onerror b i = Some j))"
proof (induction evs rule: rev_induct)
  case Nil
  then show ?case by simp
next
  case (snoc ev evs)
  show ?case
  proof (cases "promises (fold fire evs b) ! j = Fulfilled ()")
    case True
    with snoc show ?thesis by auto
  next
    case False
    with snoc.prems show ?thesis
      by (cases ev) (auto simp: fire_nth simp del: fire.simps split: if_splits)
  qed
qed

lemma fold_fire_stays:
  "j < length (promises b) \<Longrightarrow> promises b ! j = Fulfilled () \<Longrightarrow>
   promises (fold fire evs b) ! j = Fulfilled ()"
  by (induction evs rule: rev_induct) (auto simp: fire_nth simp del: fire.simps)

lemma fold_fire_settles:
  "j < length (promises b) \<Longrightarrow> promises b ! j = Pending \<Longrightarrow>
   (LoadEvent i \<in> set evs \<and> onload b i = Some j) \<or> (ErrorEvent i \<in> set evs \<and> onerror b i = Some j) \<Longrightarrow>
   promises (fold fire evs b) ! j = Fulfilled ()"
proof (induction evs rule: rev_induct)
  case Nil
  then show ?case by simp
next
  case (snoc ev evs)
  have cases3: "promises (fold fire evs b) ! j = Pending \<or> promises (fold fire evs b) ! j = Fulfilled ()"
  proof (cases "promises (fold fire evs b) ! j")
    case (Rejected e)
    with snoc.prems fold_fire_Rejected[of j b evs e] show ?thesis by simp
  qed auto
  show ?case
  proof (cases "promises (fold fire evs b) ! j = Fulfilled ()")
    case True
    with snoc.prems show ?thesis by (simp add: fire_nth del: fire.simps)
  next
    case False
    with cases3 have pend: "promises (fold fire evs b) ! j = Pending" by simp
    have "(LoadEvent i \<in> set evs \<and> onload b i = Some j) \<or> (ErrorEvent i \<in> set evs \<and> onerror b i = Some j)
       \<or> (ev = LoadEvent i \<and> onload b i = Some j) \<or> (ev = ErrorEvent i \<and> onerror b i = Some j)"
      using snoc.prems(3) by auto
    then show ?thesis
    proof (elim disjE)
      assume "LoadEvent i \<in> set evs \<and> onload b i = Some j"
      with snoc.IH snoc.prems False show ?thesis by simp
    next
      assume "ErrorEvent i \<in> set evs \<and> onerror b i = Some j"
      with snoc.IH snoc.prems False show ?thesis by simp
    next
      assume "ev = LoadEvent i \<and> onload b i = Some j"
      with pend snoc.prems show ?thesis by (simp add: fire_nth del: fire.simps)
    next
      assume "ev = ErrorEvent i \<and> onerror b i = Some j"
      with pend snoc.prems show ?thesis by (simp add: fire_nth del: fire.simps)
    qed
  qed
qed

subsection \<open>The barrier of preloadImages\<close>

lemma promises_preloadImages:
  "promises (preloadImages c images) = map (\<lambda>i. if c i then Fulfilled () else Pending) images"
  by (simp add: preloadImages_def promises_fold_executor noBarrier_def)

lemma onerror_preloadImages: "onerror (preloadImages c images) = onload (preloadImages c images)"
  unfolding preloadImages_def by (rule onerror_fold_executor) (simp add: noBarrier_def)

lemma onload_preloadImages_sound:
  "onload (preloadImages c images) i = Some k \<Longrightarrow> k < length images \<and> images ! k = i \<and> \<not> c i"
  unfolding preloadImages_def
  by (drule onload_fold_executor_sound) (simp add: noBarrier_def)

lemma onload_preloadImages_complete:
  "distinct images \<Longrightarrow> k < length images \<Longrightarrow> \<not> c (images ! k) \<Longrightarrow>
   onload (preloadImages c images) (images ! k) = Some k"
  unfolding preloadImages_def
  by (simp add: onload_fold_executor_complete noBarrier_def)

lemma barrier_never_rejects: "returned (afterEvents c images evs) \<noteq> Rejected e"
proof
  assume "returned (afterEvents c images evs) = Rejected e"
  then have "Rejected e \<in> set (promises (afterEvents c images evs))"
    by (rule returned_Rejected)
  then obtain j where j: "j < length images" "promises (afterEvents c images evs) ! j = Rejected e"
    by (auto simp: in_set_conv_nth afterEvents_def promises_preloadImages)
  then have "promises (preloadImages c images) ! j = Rejected e"
    using fold_fire_Rejected[of j "preloadImages c images" evs e]
    by (simp add: afterEvents_def promises_preloadImages)
  with j(1) show False by (simp add: promises_preloadImages split: if_splits)
qed

lemma barrier_only_after_settled:
  assumes "returned (afterEvents c images evs) = Fulfilled ()" and "i \<in> set images"
  shows "settled c evs i"
proof -
  from assms(2) obtain j where j: "j < length images" "images ! j = i"
    by (auto simp: in_set_conv_nth)
  let ?b = "preloadImages c images"
  have len: "j < length (promises ?b)" using j by (simp add: promises_preloadImages)
  from assms(1) have "\<forall>p\<in>set (promises (afterEvents c images evs)). p = Fulfilled ()"
    by (simp add: returned_Fulfilled)
  then have "promises (fold fire evs ?b) ! j = Fulfilled ()"
    using len by (simp add: afterEvents_def)
  from fold_fire_Fulfilled[OF len this]
  show ?thesis
  proof (elim disjE exE)
    assume "promises ?b ! j = Fulfilled ()"
    with j show ?thesis by (simp add: promises_preloadImages settled_def split: if_splits)
  next
    fix i' assume "LoadEvent i' \<in> set evs \<and> onload ?b i' = Some j"
    with onload_preloadImages_sound[of c images i' j] j show ?thesis
      by (auto simp: settled_def)
  next
    fix i' assume "ErrorEvent i' \<in> set evs \<and> onerror ?b i' = Some j"
    with onload_preloadImages_sound[of c images i' j] j show ?thesis
      by (auto simp: settled_def onerror_preloadImages)
  qed
qed

lemma barrier_resolves:
  assumes "distinct images" and "\<forall>i\<in>set images. settled c evs i"
  shows "returned (afterEvents c images evs) = Fulfilled ()"
proof -
  let ?b = "preloadImages c images"
  have "promises (fold fire evs ?b) ! j = Fulfilled ()" if j: "j < length images" for j
  proof (cases "c (images ! j)")
    case True
    with j show ?thesis
      using fold_fire_stays[of j ?b evs] by (simp add: promises_preloadImages)
  next
    case False
    have h: "onload ?b (images ! j) = Some j" "onerror ?b (images ! j) = Some j"
      using onload_preloadImages_complete[of images j c] assms(1) j False
      by (simp_all add: onerror_preloadImages)
    from assms(2) j False have "LoadEvent (images ! j) \<in> set evs \<or> ErrorEvent (images ! j) \<in> set evs"
      by (auto simp: settled_def)
    with h have "(LoadEvent (images ! j) \<in> set evs \<and> onload ?b (images ! j) = Some j) \<or>
                 (ErrorEvent (images ! j) \<in> set evs \<and> onerror ?b (images ! j) = Some j)"
      by auto
    with j False show ?thesis
      using fold_fire_settles[of j ?b "images ! j" evs] by (simp add: promises_preloadImages)
  qed
  then have "\<forall>p\<in>set (promises (afterEvents c images evs)). p = Fulfilled ()"
    by (auto simp: in_set_conv_nth afterEvents_def promises_preloadImages)
  then show ?thesis by (simp add: returned_Fulfilled)
qed

section \<open>Proofs: elements and the image normalizer\<close>

lemma elements_update [simp]:
  "elements (update r f d) q = (if q = r then f (elements d r) else elements d q)"
  by (simp add: update_def)

lemma tree_update [simp]: "tree (update r f d) = tree d"
  by (simp add: update_def)

lemma parentElement_update [simp]: "parentElement (update r f d) = parentElement d"
  by (simp add: parentElement_def fun_eq_iff)

lemma descendants_update [simp]: "descendants (update r f d) = descendants d"
  by (simp add: descendants_def fun_eq_iff)

lemma parses_other: "k \<noteq> ''width'' \<Longrightarrow> k \<noteq> ''height'' \<Longrightarrow> parses k v"
  by (simp add: parses_def)

lemma parses_size: "parses ''width'' v = sizeValue v" "parses ''height'' v = sizeValue v"
  by (simp_all add: parses_def)

lemma sizeValue_literals: "sizeValue ''100%''" "sizeValue ''auto''"
  by code_simp+

lemma setStyle_fields [simp]:
  "tagName (setStyle k v e) = tagName e"
  "isHTMLElement (setStyle k v e) = isHTMLElement e"
  "classList (setStyle k v e) = classList e"
  "attributes (setStyle k v e) = attributes e"
  by (simp_all add: setStyle_def)

lemma style_setStyle:
  "style (setStyle k v e) = (if v = [] \<or> parses k v then (style e)(k := (v, False)) else style e)"
  by (simp add: setStyle_def)

lemma setAttribute_fields [simp]:
  "tagName (setAttribute a v e) = tagName e"
  "isHTMLElement (setAttribute a v e) = isHTMLElement e"
  "classList (setAttribute a v e) = classList e"
  "attributes (setAttribute a v e) = (attributes e)(a \<mapsto> v)"
  "style (setAttribute a v e) = style e"
  by (simp_all add: setAttribute_def)

lemma setProperty_fields [simp]:
  "tagName (setProperty k v p e) = tagName e"
  "isHTMLElement (setProperty k v p e) = isHTMLElement e"
  "classList (setProperty k v p e) = classList e"
  "attributes (setProperty k v p e) = attributes e"
  by (simp_all add: setProperty_def)

lemma style_setProperty_important:
  "style (setProperty k v ''important'' e) =
     (if v = [] then (style e)(k := ([], False))
      else if parses k v then (style e)(k := (v, True)) else style e)"
  by (simp add: setProperty_def)

lemma assign_fields [simp]:
  "tagName (assign kvs e) = tagName e"
  "isHTMLElement (assign kvs e) = isHTMLElement e"
  "classList (assign kvs e) = classList e"
  "attributes (assign kvs e) = attributes e"
  by (induction kvs e rule: assign.induct) simp_all

lemma style_assign:
  "accepted kvs \<Longrightarrow>
   style (assign kvs e) k = (case map_of (rev kvs) k of None \<Rightarrow> style e k | Some v \<Rightarrow> (v, False))"
proof (induction kvs e rule: assign.induct)
  case (1 e)
  then show ?case by simp
next
  case (2 property v rest e)
  then show ?case
    by (auto simp: accepted_def style_setStyle map_add_def map_of_append split: option.splits)
qed

lemma assign_idem: "accepted kvs \<Longrightarrow> assign kvs (assign kvs e) = assign kvs e"
  by (rule element.equality) (auto simp: fun_eq_iff style_assign split: option.splits)


lemma accepted_append [simp]: "accepted (xs @ ys) = (accepted xs \<and> accepted ys)"
  by (simp add: accepted_def)

lemma accepted_fitting [simp]: "accepted (fitting m)"
  by (simp add: accepted_def fitting_def parses_other parses_size sizeValue_literals)

lemma accepted_shown [simp]: "accepted [(''display'', ''block''), (''visibility'', ''visible'')]"
  by (simp add: accepted_def parses_other)

lemma accepted_framing [simp]:
  "accepted [(''position'', ''relative''), (''overflow'', ''hidden''), (''box-sizing'', ''border-box'')]"
  by (simp add: accepted_def parses_other)

lemma accepted_hidden [simp]:
  "accepted [(''display'', ''none''), (''visibility'', ''hidden''), (''opacity'', ''0'')]"
  by (simp add: accepted_def parses_other)

lemma accepted_cleared [simp]:
  "accepted [(''background-color'', ''transparent''), (''border'', ''none'')]"
  by (simp add: accepted_def parses_other)

lemma applyObjectFitStyles_fitting: "applyObjectFitStyles m e = assign (fitting m) e"
  by (simp add: applyObjectFitStyles_def fitting_def)


lemma styleContainer_fields [simp]:
  "tagName (styleContainer e) = tagName e"
  "isHTMLElement (styleContainer e) = isHTMLElement e"
  "classList (styleContainer e) = classList e"
  "attributes (styleContainer e) = attributes e"
  by (simp_all add: styleContainer_def)

lemma parentElement_neq:
  assumes "parentElement d i = Some c"
  shows "c \<noteq> i"
proof -
  from assms have "i \<noteq> []" and "c = butlast i"
    by (auto simp: parentElement_def split: if_splits)
  then have "length c < length i" by simp
  then show ?thesis by auto
qed

subsection \<open>What the loop body does to the image: the three writes, then the emulation\<close>

lemma tree_madeVisible [simp]: "tree (madeVisible img d) = tree d"
  by (simp add: madeVisible_def)

lemma elements_madeVisible:
  "elements (madeVisible img d) r =
     (if r = img then assign [(''display'', ''block''), (''visibility'', ''visible'')]
                        (setAttribute ''crossorigin'' ''anonymous'' (elements d img))
      else elements d r)"
  by (simp add: madeVisible_def)

lemma processImage_eq:
  "processImage gcs v img d =
     (let d3 = madeVisible img d;
          d4 = update img (applyObjectFitStyles (objectFit gcs v img d3)) d3
      in case parentElement d img of
           None \<Rightarrow> d4
         | Some c \<Rightarrow> if isHTMLElement (elements d c) then update c styleContainer d4 else d4)"
proof -
  have m: "update img (setStyle ''visibility'' ''visible'')
        (update img (setStyle ''display'' ''block'')
          (update img (setAttribute ''crossorigin'' ''anonymous'') d)) = madeVisible img d"
    by (simp add: madeVisible_def update_def fun_eq_iff)
  have h: "isHTMLElement (elements (update img (applyObjectFitStyles m) (madeVisible img d)) c)
      = isHTMLElement (elements d c)" for m c
    by (simp add: elements_madeVisible applyObjectFitStyles_fitting del: assign.simps)
  show ?thesis
    unfolding processImage_def Let_def m parentElement_update h ..
qed

lemma tree_processImage [simp]: "tree (processImage gcs v i d) = tree d"
  by (simp add: processImage_eq Let_def split: option.splits)

lemma parentElement_processImage [simp]: "parentElement (processImage gcs v i d) = parentElement d"
  by (simp add: parentElement_def fun_eq_iff)

lemma elements_processImage:
  "elements (processImage gcs v i d) r =
     (if parentElement d i = Some r \<and> isHTMLElement (elements d r) then styleContainer (elements d r)
      else if r = i
      then assign (fitting (objectFit gcs v i (madeVisible i d)))
             (assign [(''display'', ''block''), (''visibility'', ''visible'')]
               (setAttribute ''crossorigin'' ''anonymous'' (elements d i)))
      else elements d r)"
  by (auto simp: processImage_eq Let_def elements_madeVisible applyObjectFitStyles_fitting
      dest: parentElement_neq split: option.splits simp del: assign.simps)

section \<open>Proofs: the SVG normalizer\<close>

lemma elements_fold_update:
  assumes "\<And>e. g (g e) = g e"
  shows "elements (fold (\<lambda>p. update p g) ps d) r = (if r \<in> set ps then g (elements d r) else elements d r)"
  by (induction ps arbitrary: d) (auto simp: assms)

lemma tree_fold_update [simp]: "tree (fold (\<lambda>p. update p g) ps d) = tree d"
  by (induction ps arbitrary: d) auto

subsection \<open>Polygons\<close>

lemma processPolygon_fields [simp]:
  "tagName (processPolygon e) = tagName e"
  "isHTMLElement (processPolygon e) = isHTMLElement e"
  "classList (processPolygon e) = classList e"
  "style (processPolygon e) = style e"
  by (simp_all add: processPolygon_def Let_def)

lemma attributes_processPolygon:
  "attributes (processPolygon e) a =
     (if a = ''fill'' then orDefault ''#E2E8F0'' (attributes e a)
      else if a = ''stroke'' then orDefault ''#CBD5E1'' (attributes e a)
      else if a = ''stroke-width'' then orDefault ''1'' (attributes e a)
      else attributes e a)"
  by (simp add: processPolygon_def Let_def getAttribute_def orDefault_def)

lemma orDefault_idem: "v \<noteq> [] \<Longrightarrow> orDefault v (orDefault v a) = orDefault v a"
  by (simp add: orDefault_def falsy_def)

lemma processPolygon_idem: "processPolygon (processPolygon e) = processPolygon e"
  by (rule element.equality) (auto simp: fun_eq_iff attributes_processPolygon orDefault_idem)

lemma processSvgRoot_fields [simp]:
  "tagName (processSvgRoot e) = tagName e"
  "isHTMLElement (processSvgRoot e) = isHTMLElement e"
  "classList (processSvgRoot e) = classList e"
  by (simp_all add: processSvgRoot_def Let_def)

lemma attributes_processSvgRoot:
  "attributes (processSvgRoot e) a =
     (if a = ''xmlns'' then orDefault ''http://www.w3.org/2000/svg'' (attributes e a) else attributes e a)"
  by (simp add: processSvgRoot_def Let_def getAttribute_def orDefault_def)

lemma px_nonempty [simp]: "v @ ''px'' \<noteq> []"
  by simp

lemma style_processSvgRoot:
  "style (processSvgRoot e) k =
     (if k = ''visibility'' then (''visible'', False)
      else if k = ''display'' then (''block'', False)
      else if k = ''height'' \<and> fst (style e k) = [] \<and> sizeValue (toString (attributes e ''height'') @ ''px'')
      then (toString (attributes e ''height'') @ ''px'', False)
      else if k = ''width'' \<and> fst (style e k) = [] \<and> sizeValue (toString (attributes e ''width'') @ ''px'')
      then (toString (attributes e ''width'') @ ''px'', False)
      else style e k)"
  by (auto simp: processSvgRoot_def Let_def getAttribute_def getPropertyValue_def style_setStyle
      parses_size parses_other)

lemma querySelectorAll_cong:
  "tree d' = tree d \<Longrightarrow> (\<And>q s. s \<in> set sels \<Longrightarrow> matches s (elements d' q) = matches s (elements d q)) \<Longrightarrow>
   querySelectorAll d' r sels = querySelectorAll d r sels"
  by (auto simp: querySelectorAll_def descendants_def list_ex_iff intro!: filter_cong)

lemma tree_processSvgElement [simp]: "tree (processSvgElement svg d) = tree d"
  by (simp add: processSvgElement_def Let_def)

lemma elements_processSvgElement:
  "elements (processSvgElement svg d) r =
     (let e = (if r = svg then processSvgRoot (elements d r) else elements d r)
      in if r \<in> set (querySelectorAll d svg [TypeSel ''polygon'']) then processPolygon e else e)"
proof -
  have q: "querySelectorAll (update svg processSvgRoot d) svg [TypeSel ''polygon'']
         = querySelectorAll d svg [TypeSel ''polygon'']"
    by (rule querySelectorAll_cong) auto
  show ?thesis
    by (simp add: processSvgElement_def Let_def q elements_fold_update processPolygon_idem)
qed


lemma querySelectorAll_processSvgElement [simp]:
  "querySelectorAll (processSvgElement svg d) r [TypeSel t] = querySelectorAll d r [TypeSel t]"
  by (rule querySelectorAll_cong) (auto simp: elements_processSvgElement Let_def)

lemma polygon_attributes_processSvgElement:
  assumes "a = ''fill'' \<or> a = ''stroke'' \<or> a = ''stroke-width''"
  shows "attributes (elements (processSvgElement svg d) r) a =
     (if r \<in> set (querySelectorAll d svg [TypeSel ''polygon''])
      then attributes (processPolygon (elements d r)) a else attributes (elements d r) a)"
  using assms
  by (auto simp: elements_processSvgElement Let_def attributes_processPolygon attributes_processSvgRoot)

lemma polygon_attributes_fold:
  assumes "a = ''fill'' \<or> a = ''stroke'' \<or> a = ''stroke-width''"
  shows "attributes (elements (fold processSvgElement svgs d) r) a =
     (if \<exists>svg\<in>set svgs. r \<in> set (querySelectorAll d svg [TypeSel ''polygon''])
      then attributes (processPolygon (elements d r)) a else attributes (elements d r) a)"
proof (induction svgs arbitrary: d)
  case Nil
  then show ?case by simp
next
  case (Cons svg svgs)
  have again: "attributes (processPolygon (processPolygon e)) a = attributes (processPolygon e) a" for e
    by (simp add: processPolygon_idem)
  have same: "attributes (processPolygon (elements (processSvgElement svg d) r)) a
      = attributes (processPolygon (elements d r)) a"
    using assms
    by (auto simp: elements_processSvgElement Let_def attributes_processPolygon attributes_processSvgRoot
        orDefault_idem)
  show ?case
    using assms
    by (simp add: Cons.IH polygon_attributes_processSvgElement same again)
qed

section \<open>Proofs: the tree, controls and text blocks\<close>

lemma subtree_append:
  "subtree t (p @ s) = (case subtree t p of None \<Rightarrow> None | Some t' \<Rightarrow> subtree t' s)"
  by (induction t p rule: subtree.induct) auto

lemma paths_valid:
  "(q \<in> set (paths t)) = (subtree t q \<noteq> None)"
  "(q \<in> set (pathsFrom i ts)) = (\<exists>j r. q = (i + j) # r \<and> j < length ts \<and> subtree (ts ! j) r \<noteq> None)"
proof (induction t and i ts arbitrary: q and q rule: paths_pathsFrom.induct)
  case (1 ts)
  show ?case
  proof (cases q)
    case Nil
    then show ?thesis by simp
  next
    case (Cons a r)
    then show ?thesis by (auto simp: 1)
  qed
next
  case (2 i)
  then show ?case by simp
next
  case (3 i t ts)
  have "(\<exists>j r. q = (i + j) # r \<and> j < Suc (length ts) \<and> subtree ((t # ts) ! j) r \<noteq> None)
      \<longleftrightarrow> (\<exists>r. q = i # r \<and> subtree t r \<noteq> None)
          \<or> (\<exists>j r. q = (Suc i + j) # r \<and> j < length ts \<and> subtree (ts ! j) r \<noteq> None)"
    (is "?L \<longleftrightarrow> ?A \<or> ?B")
  proof
    assume ?L
    then obtain j r where jr: "q = (i + j) # r" "j < Suc (length ts)" "subtree ((t # ts) ! j) r \<noteq> None"
      by blast
    show "?A \<or> ?B"
    proof (cases j)
      case 0
      with jr show ?thesis by simp
    next
      case (Suc k)
      with jr have "q = (Suc i + k) # r \<and> k < length ts \<and> subtree (ts ! k) r \<noteq> None" by simp
      then show ?thesis by blast
    qed
  next
    assume "?A \<or> ?B"
    then show ?L
    proof
      assume ?A
      then obtain r where "q = (i + 0) # r \<and> 0 < Suc (length ts) \<and> subtree ((t # ts) ! 0) r \<noteq> None"
        by auto
      then show ?L by blast
    next
      assume ?B
      then obtain j r where "q = (i + Suc j) # r \<and> Suc j < Suc (length ts) \<and> subtree ((t # ts) ! Suc j) r \<noteq> None"
        by auto
      then show ?L by blast
    qed
  qed
  then show ?case by (auto simp: 3)
qed

lemma descendants_iff:
  "q \<in> set (descendants d p) \<longleftrightarrow> (\<exists>s. s \<noteq> [] \<and> q = p @ s \<and> subtree (tree d) q \<noteq> None)"
proof (cases "subtree (tree d) p")
  case None
  then show ?thesis by (auto simp: descendants_def subtree_append)
next
  case (Some t)
  obtain ts where t: "t = Tree ts" by (cases t)
  have tl: "s \<in> set (tl (paths t)) \<longleftrightarrow> s \<noteq> [] \<and> subtree t s \<noteq> None" for s
  proof -
    have "s \<in> set (tl (paths t)) \<longleftrightarrow> s \<in> set (pathsFrom 0 ts)" by (simp add: t)
    also have "\<dots> \<longleftrightarrow> s \<noteq> [] \<and> s \<in> set (paths t)"
      by (auto simp: t paths_valid(2))
    finally show ?thesis by (simp add: paths_valid(1))
  qed
  have sub: "subtree (tree d) (p @ s) = subtree t s" for s
    by (simp add: subtree_append Some)
  have "q \<in> set (descendants d p) \<longleftrightarrow> (\<exists>s. s \<in> set (tl (paths t)) \<and> q = p @ s)"
    by (auto simp: descendants_def Some)
  also have "\<dots> \<longleftrightarrow> (\<exists>s. s \<noteq> [] \<and> q = p @ s \<and> subtree (tree d) (p @ s) \<noteq> None)"
    unfolding tl sub by blast
  also have "\<dots> \<longleftrightarrow> (\<exists>s. s \<noteq> [] \<and> q = p @ s \<and> subtree (tree d) q \<noteq> None)"
    by auto
  finally show ?thesis .
qed

lemma descendants_neq: "q \<in> set (descendants d p) \<Longrightarrow> q \<noteq> p"
  by (auto simp: descendants_iff)

lemma descendants_trans:
  assumes "q \<in> set (descendants d p)" and "r \<in> set (descendants d q)"
  shows "r \<in> set (descendants d p)"
proof -
  from assms(1) obtain s where s: "s \<noteq> []" "q = p @ s"
    unfolding descendants_iff by blast
  from assms(2) obtain s' where s': "r = q @ s'" "subtree (tree d) r \<noteq> None"
    unfolding descendants_iff by blast
  from s s' have "s @ s' \<noteq> [] \<and> r = p @ (s @ s') \<and> subtree (tree d) r \<noteq> None"
    by simp
  then show ?thesis
    unfolding descendants_iff by blast
qed

lemma querySelectorAll_descendants:
  "q \<in> set (querySelectorAll d p sels) \<Longrightarrow> q \<in> set (descendants d p)"
  by (simp add: querySelectorAll_def)

lemma querySelector_in:
  "querySelector d p sels = Some q \<Longrightarrow> q \<in> set (querySelectorAll d p sels)"
  by (cases "querySelectorAll d p sels") (auto simp: querySelector_def)

lemma querySelector_descendants:
  "querySelector d p sels = Some q \<Longrightarrow> q \<in> set (descendants d p)"
  by (rule querySelectorAll_descendants) (rule querySelector_in)

lemma querySelectorAll_Universal: "querySelectorAll d p [Universal] = descendants d p"
  by (simp add: querySelectorAll_def)


lemma descendants_asym:
  assumes "q \<in> set (descendants d p)"
  shows "p \<notin> set (descendants d q)"
proof
  assume "p \<in> set (descendants d q)"
  with assms have "p \<in> set (descendants d p)" by (rule descendants_trans)
  then show False using descendants_neq by blast
qed

subsection \<open>Controls\<close>

lemma tree_hideElement [simp]: "tree (hideElement el d) = tree d"
  by (simp add: hideElement_def)

lemma elements_hideElement:
  "elements (hideElement el d) r =
     (if r = el \<and> isHTMLElement (elements d r)
      then assign [(''display'', ''none''), (''visibility'', ''hidden''), (''opacity'', ''0'')] (elements d r)
      else elements d r)"
  by (auto simp: hideElement_def)

lemma elements_fold_hideElement:
  "elements (fold hideElement qs d) r =
     (if r \<in> set qs \<and> isHTMLElement (elements d r)
      then assign [(''display'', ''none''), (''visibility'', ''hidden''), (''opacity'', ''0'')] (elements d r)
      else elements d r)"
proof (induction qs arbitrary: d)
  case Nil
  then show ?case by simp
next
  case (Cons a qs)
  show ?case
    by (auto simp: Cons.IH elements_hideElement assign_idem simp del: assign.simps)
qed

lemma elements_hideUiControls:
  "elements (hideUiControls page d) r =
     (if r \<in> set (querySelectorAll d page uiSelectors) \<and> isHTMLElement (elements d r)
      then assign [(''display'', ''none''), (''visibility'', ''hidden''), (''opacity'', ''0'')] (elements d r)
      else elements d r)"
  by (auto simp: hideUiControls_def elements_fold_hideElement simp del: assign.simps)

subsection \<open>Text blocks\<close>

lemma tree_processBlockBackground [simp]: "tree (processBlockBackground gcs b d) = tree d"
  by (simp add: processBlockBackground_def Let_def)

lemma elements_processBlockBackground:
  "elements (processBlockBackground gcs b d) r =
     (if r = b \<and> paints (gcs d b ''background-color'')
      then setProperty ''padding'' ''8px'' ''important''
             (setProperty ''background-color'' (gcs d b ''background-color'')
                ''important'' (elements d b))
      else elements d r)"
  by (auto simp: processBlockBackground_def Let_def)

lemma tree_inheritColor [simp]: "tree (inheritColor c n d) = tree d"
  by (simp add: inheritColor_def)

lemma elements_inheritColor:
  "elements (inheritColor c n d) r =
     (if r = n \<and> isHTMLElement (elements d n) \<and> getPropertyValue (elements d n) ''color'' = []
      then setProperty ''color'' (getPropertyValue (elements d c) ''color'') ''important'' (elements d n)
      else elements d r)"
  by (auto simp: inheritColor_def)

lemma elements_fold_inheritColor:
  assumes "c \<notin> set ns"
  shows "elements (fold (inheritColor c) ns d) r =
     (if r \<in> set ns \<and> isHTMLElement (elements d r) \<and> getPropertyValue (elements d r) ''color'' = []
      then setProperty ''color'' (getPropertyValue (elements d c) ''color'') ''important'' (elements d r)
      else elements d r)"
  using assms
proof (induction ns arbitrary: d)
  case Nil
  then show ?case by simp
next
  case (Cons a ns)
  let ?d1 = "inheritColor c a d"
  from Cons.prems have ca: "c \<noteq> a" and cns: "c \<notin> set ns" by auto
  have c1: "elements ?d1 c = elements d c" using ca by (simp add: elements_inheritColor)
  have "elements (fold (inheritColor c) (a # ns) d) r =
      (if r \<in> set ns \<and> isHTMLElement (elements ?d1 r) \<and> getPropertyValue (elements ?d1 r) ''color'' = []
       then setProperty ''color'' (getPropertyValue (elements d c) ''color'') ''important'' (elements ?d1 r)
       else elements ?d1 r)"
    using Cons.IH[OF cns, of ?d1] by (simp add: c1)
  also have "\<dots> =
      (if r \<in> set (a # ns) \<and> isHTMLElement (elements d r) \<and> getPropertyValue (elements d r) ''color'' = []
       then setProperty ''color'' (getPropertyValue (elements d c) ''color'') ''important'' (elements d r)
       else elements d r)"
    by (cases "getPropertyValue (elements d c) ''color'' = []")
       (auto simp: elements_inheritColor getPropertyValue_def setProperty_def)
  finally show ?case .
qed

lemma tree_fold_inheritColor [simp]: "tree (fold (inheritColor c) ns d) = tree d"
  by (induction ns arbitrary: d) auto

lemma reassert_fields [simp]:
  "tagName (reassert k e) = tagName e"
  "isHTMLElement (reassert k e) = isHTMLElement e"
  "classList (reassert k e) = classList e"
  "attributes (reassert k e) = attributes e"
  by (simp_all add: reassert_def)


lemma tree_applyFontStyles [simp]: "tree (applyFontStyles c d) = tree d"
  by (simp add: applyFontStyles_def)

lemma elements_applyFontStyles:
  "elements (applyFontStyles c d) r =
     (if r = c then reassert ''font-weight'' (reassert ''font-size'' (reassert ''font-family'' (elements d c)))
      else elements d r)"
  by (simp add: applyFontStyles_def)

section \<open>The claims about images\<close>

lemma imagesAreLeaves_iff:
  "imagesAreLeaves d images \<longleftrightarrow> (\<forall>i\<in>set images. \<forall>c. parentElement d i = Some c \<longrightarrow> c \<notin> set images)"
  by (auto simp: imagesAreLeaves_def list_all_iff split: option.splits)

lemma tree_fold_processImage [simp]: "tree (fold (processImage gcs v) images d) = tree d"
  by (induction images arbitrary: d) simp_all

lemma parentElement_fold_processImage [simp]:
  "parentElement (fold (processImage gcs v) images d) = parentElement d"
  by (simp add: parentElement_def fun_eq_iff)

lemma isHTMLElement_processImage [simp]:
  "isHTMLElement (elements (processImage gcs v i d) r) = isHTMLElement (elements d r)"
  by (simp add: elements_processImage del: assign.simps)

lemma isHTMLElement_fold_processImage [simp]:
  "isHTMLElement (elements (fold (processImage gcs v) images d) r) = isHTMLElement (elements d r)"
  by (induction images arbitrary: d) simp_all

text \<open>The images visited later leave an image alone that is none of them and the parent
  of none of them.\<close>

lemma elements_fold_processImage_other:
  assumes "r \<notin> set images" and "\<forall>i\<in>set images. parentElement d i \<noteq> Some r"
  shows "elements (fold (processImage gcs v) images d) r = elements d r"
  using assms
proof (induction images arbitrary: d)
  case Nil
  then show ?case by simp
next
  case (Cons a images)
  from Cons.prems have "elements (processImage gcs v a d) r = elements d r"
    by (simp add: elements_processImage del: assign.simps)
  moreover
  have "elements (fold (processImage gcs v) images (processImage gcs v a d)) r
      = elements (processImage gcs v a d) r"
    by (rule Cons.IH) (use Cons.prems in simp_all)
  ultimately show ?case by simp
qed

lemma processImages_image:
  assumes "images = earlier @ img # later" and "img \<notin> set later" and "imagesAreLeaves d images"
  shows "elements (processImages gcs images dflt d) img =
     applyObjectFitStyles
       (objectFit gcs (case dflt of None \<Rightarrow> ''cover'' | Some v \<Rightarrow> v) img
          (madeVisible img (processImages gcs earlier dflt d)))
       (elements (madeVisible img (processImages gcs earlier dflt d)) img)"
proof -
  define v where "v = (case dflt of None \<Rightarrow> ''cover'' | Some v \<Rightarrow> v)"
  let ?reached = "fold (processImage gcs v) earlier d"
  let ?visited = "processImage gcs v img ?reached"
  from assms(3) have "\<forall>i\<in>set images. \<forall>c. parentElement d i = Some c \<longrightarrow> c \<notin> set images"
    by (simp add: imagesAreLeaves_iff)
  moreover have "img \<in> set images" using assms(1) by simp
  ultimately have leaves: "\<forall>i\<in>set images. parentElement d i \<noteq> Some img" by blast
  have "elements (fold (processImage gcs v) later ?visited) img = elements ?visited img"
    by (rule elements_fold_processImage_other) (use assms(1,2) leaves in simp_all)
  moreover have "elements ?visited img =
      applyObjectFitStyles (objectFit gcs v img (madeVisible img ?reached))
        (elements (madeVisible img ?reached) img)"
    using parentElement_neq[of d img img]
    by (auto simp: elements_processImage elements_madeVisible applyObjectFitStyles_fitting
        simp del: assign.simps)
  ultimately show ?thesis
    by (simp add: processImages_def assms(1) v_def)
qed




lemma style_applyObjectFitStyles:
  "style (applyObjectFitStyles m e) k =
     (case map_of (rev (fitting m)) k of Some x \<Rightarrow> (x, False) | None \<Rightarrow> style e k)"
  by (simp add: applyObjectFitStyles_fitting style_assign split: option.splits del: assign.simps)

lemma style_madeVisible:
  "style (elements (madeVisible img d) img) k =
     (if k = ''visibility'' then (''visible'', False)
      else if k = ''display'' then (''block'', False) else style (elements d img) k)"
  by (simp add: madeVisible_def style_setStyle parses_other)


lemma applyObjectFitStyles_fields [simp]:
  "attributes (applyObjectFitStyles m e) = attributes e"
  "isHTMLElement (applyObjectFitStyles m e) = isHTMLElement e"
  "tagName (applyObjectFitStyles m e) = tagName e"
  "classList (applyObjectFitStyles m e) = classList e"
  by (simp_all add: applyObjectFitStyles_fitting del: assign.simps)

text \<open>
  Claim C1, as amended.  Take an image of the collection at its last visit by the loop of
  \<open>processImages\<close> (the collection is \<open>earlier @ img # later\<close>, and the image does not
  occur in \<open>later\<close>).  The fit emulation applied to it is selected by the mode resolved in
  this order: the \<open>object-fit\<close> the engine resolves for the image when it is asked, if it is
  not empty; otherwise the inline \<open>object-fit\<close>, if it is not empty; otherwise the default
  argument, which is \<open>cover\<close> when it is left out.  The image ends as that emulation applied
  to the image with its cross-origin attribute, \<open>display\<close> and \<open>visibility\<close> set.
\<close>

theorem processImages_objectFit_priority:
  assumes "images = earlier @ img # later" and "img \<notin> set later" and "imagesAreLeaves d images"
  shows "let shown = madeVisible img (processImages getComputedStyle earlier objectFitDefault d);
             computed = getComputedStyle shown img ''object-fit'';
             inline = getPropertyValue (elements shown img) ''object-fit''
         in elements (processImages getComputedStyle images objectFitDefault d) img =
              applyObjectFitStyles
                (if computed \<noteq> '''' then computed
                 else if inline \<noteq> '''' then inline
                 else (case objectFitDefault of None \<Rightarrow> ''cover'' | Some v \<Rightarrow> v))
                (elements shown img)"
  unfolding Let_def processImages_image[OF assms]
  by (simp add: objectFit_def orElse_def Let_def)

lemma imageDocument_leaves: "imagesAreLeaves (imageDocument a) [[0]]"
  by (simp add: imagesAreLeaves_def parentElement_def imageDocument_def)

lemma processImages_Nil [simp]: "processImages gcs [] dflt d = d"
  by (simp add: processImages_def)

lemma imageDocument_inline:
  "getPropertyValue (elements (madeVisible [0] (imageDocument a)) [0]) ''object-fit'' = a"
  by (simp add: getPropertyValue_def style_madeVisible imageDocument_def)

lemma imageDocument_cascade:
  "cascade (imageSheet fit important) (madeVisible [0] (imageDocument a)) [0] ''object-fit''
     = (if a \<noteq> [] \<and> \<not> important then a else fit)"
  by (simp add: cascade_def Let_def style_madeVisible imageDocument_def imageSheet_def noSheet_def
      computedValue_def)

text \<open>With an engine that resolves nothing, an image with an inline \<open>contain\<close> gets the
  contain emulation although the default is \<open>fill\<close>, and an image with nothing set gets the
  emulation of the default \<open>cover\<close>; with a sheet that says \<open>fill\<close>, an image with nothing
  set gets the fill emulation.\<close>

theorem processImages_objectFit_priority_witness:
  "elements (processImages unresolved [[0]] (Some ''fill'') (imageDocument ''contain'')) [0] =
     applyObjectFitStyles ''contain'' (elements (madeVisible [0] (imageDocument ''contain'')) [0])
   \<and> elements (processImages unresolved [[0]] None (imageDocument '''')) [0] =
     applyObjectFitStyles ''cover'' (elements (madeVisible [0] (imageDocument '''')) [0])
   \<and> elements (processImages (cascade (imageSheet ''fill'' False)) [[0]] None (imageDocument '''')) [0] =
     applyObjectFitStyles ''fill'' (elements (madeVisible [0] (imageDocument '''')) [0])"
proof -
  have s: "[[0]] = [] @ [0::nat] # []" "[0::nat] \<notin> set []" by simp_all
  show ?thesis
    using processImages_objectFit_priority[OF s imageDocument_leaves[of "''contain''"],
        where objectFitDefault = "Some ''fill''" and getComputedStyle = unresolved]
      processImages_objectFit_priority[OF s imageDocument_leaves[of "[]"],
        where objectFitDefault = None and getComputedStyle = unresolved]
      processImages_objectFit_priority[OF s imageDocument_leaves[of "[]"],
        where objectFitDefault = None and getComputedStyle = "cascade (imageSheet ''fill'' False)"]
    by (simp add: Let_def imageDocument_inline imageDocument_cascade unresolved_def)
qed

text \<open>
  The order as the claim states it (inline first) fails on an image whose inline value is
  \<open>contain\<close> while an important rule of a style sheet makes the engine resolve \<open>cover\<close>:
  the claim selects the contain emulation (width \<open>auto\<close>), the code applies the cover
  emulation (width \<open>100%\<close>) and overwrites the inline \<open>object-fit\<close> with \<open>cover\<close>.
\<close>

theorem processImages_inline_first_counterexample:
  "specObjectFit (cascade (imageSheet ''cover'' True)) ''cover'' [0]
       (madeVisible [0] (imageDocument ''contain'')) = ''contain''
   \<and> objectFit (cascade (imageSheet ''cover'' True)) ''cover'' [0]
       (madeVisible [0] (imageDocument ''contain'')) = ''cover''
   \<and> elements (processImages (cascade (imageSheet ''cover'' True)) [[0]] None (imageDocument ''contain'')) [0] \<noteq>
       applyObjectFitStyles
         (specObjectFit (cascade (imageSheet ''cover'' True)) ''cover'' [0]
            (madeVisible [0] (imageDocument ''contain'')))
         (elements (madeVisible [0] (imageDocument ''contain'')) [0])
   \<and> declares (elements (processImages (cascade (imageSheet ''cover'' True)) [[0]] None
                 (imageDocument ''contain'')) [0])
        [(''object-fit'', ''cover''), (''width'', ''100%''), (''height'', ''100%'')]"
proof -
  let ?E = "cascade (imageSheet ''cover'' True)"
  let ?shown = "madeVisible [0] (imageDocument ''contain'')"
  let ?after = "elements (processImages ?E [[0]] None (imageDocument ''contain'')) [0]"
  let ?claimed = "applyObjectFitStyles (specObjectFit ?E ''cover'' [0] ?shown) (elements ?shown [0])"
  have s: "[[0]] = [] @ [0::nat] # []" "[0::nat] \<notin> set []" by simp_all
  have m: "objectFit ?E ''cover'' [0] ?shown = ''cover''"
    by (simp add: objectFit_def orElse_def Let_def imageDocument_cascade)
  have sp: "specObjectFit ?E ''cover'' [0] ?shown = ''contain''"
    by (simp add: specObjectFit_def orElse_def imageDocument_inline)
  have a: "?after = applyObjectFitStyles ''cover'' (elements ?shown [0])"
    using processImages_image[OF s imageDocument_leaves[of "''contain''"], of ?E None] m by simp
  have d: "declares ?after [(''object-fit'', ''cover''), (''width'', ''100%''), (''height'', ''100%'')]"
    unfolding a by (simp add: declares_def style_applyObjectFitStyles fitting_def)
  have "style ?claimed ''width'' = (''auto'', False)"
    unfolding sp by (simp add: style_applyObjectFitStyles fitting_def)
  moreover from d have "style ?after ''width'' = (''100%'', False)"
    by (simp add: declares_def)
  ultimately have "?after \<noteq> ?claimed" by auto
  with m sp d show ?thesis by simp
qed

text \<open>
  Claim C3.  Take an image of the collection at its last visit by the loop of
  \<open>processImages\<close>, and let the mode be the value of the constant \<open>objectFit\<close> of the source
  at that visit: what the engine resolves for the image then, else its inline value, else
  the default.  For each of the five modes, the image ends up, after \<open>processImages\<close>, with
  the inline declarations of the rule of the mode:
  cover: \<open>object-fit cover\<close>, width and height \<open>100%\<close>, \<open>position absolute\<close>, top and left
  \<open>0\<close>; contain: \<open>object-fit contain\<close>, height \<open>100%\<close>, width \<open>auto\<close>, \<open>max-width none\<close>,
  \<open>position absolute\<close>, top \<open>0\<close>, left \<open>50%\<close>, transform \<open>translateX(-50%)\<close>; fill:
  \<open>object-fit fill\<close>, width and height \<open>100%\<close> and no positioning (position, top, left and
  transform are kept); none: \<open>max-height 100%\<close>, width \<open>auto\<close>, \<open>position absolute\<close>, top and
  left \<open>50%\<close>, transform \<open>translate(-50%, -50%)\<close>; scale-down: as none, and \<open>max-width none\<close>.
  The properties of the emulation that a rule does not name keep the declarations they had
  when the loop reached the image.
\<close>

theorem processImages_fit_rules:
  assumes "images = earlier @ img # later" and "img \<notin> set later" and "imagesAreLeaves d images"
  shows "let reached = processImages getComputedStyle earlier objectFitDefault d;
             before = elements reached img;
             after = elements (processImages getComputedStyle images objectFitDefault d) img;
             mode = objectFit getComputedStyle (case objectFitDefault of None \<Rightarrow> ''cover'' | Some v \<Rightarrow> v)
                      img (madeVisible img reached)
         in (mode = ''cover'' \<longrightarrow>
               declares after [(''object-fit'', ''cover''), (''width'', ''100%''), (''height'', ''100%''),
                               (''position'', ''absolute''), (''top'', ''0''), (''left'', ''0'')]
               \<and> keeps before after [''max-width'', ''max-height'', ''transform''])
          \<and> (mode = ''contain'' \<longrightarrow>
               declares after [(''object-fit'', ''contain''), (''height'', ''100%''), (''width'', ''auto''),
                               (''max-width'', ''none''), (''position'', ''absolute''), (''top'', ''0''),
                               (''left'', ''50%''), (''transform'', ''translateX(-50%)'')]
               \<and> keeps before after [''max-height''])
          \<and> (mode = ''fill'' \<longrightarrow>
               declares after [(''object-fit'', ''fill''), (''width'', ''100%''), (''height'', ''100%'')]
               \<and> keeps before after [''position'', ''top'', ''left'', ''transform'', ''max-width'',
                                      ''max-height''])
          \<and> (mode = ''none'' \<longrightarrow>
               declares after [(''max-height'', ''100%''), (''width'', ''auto''), (''position'', ''absolute''),
                               (''top'', ''50%''), (''left'', ''50%''),
                               (''transform'', ''translate(-50%, -50%)'')]
               \<and> keeps before after [''object-fit'', ''height'', ''max-width''])
          \<and> (mode = ''scale-down'' \<longrightarrow>
               declares after [(''max-height'', ''100%''), (''width'', ''auto''), (''max-width'', ''none''),
                               (''position'', ''absolute''), (''top'', ''50%''), (''left'', ''50%''),
                               (''transform'', ''translate(-50%, -50%)'')]
               \<and> keeps before after [''object-fit'', ''height''])"
  unfolding Let_def processImages_image[OF assms]
  by (intro conjI impI;
      simp add: declares_def keeps_def style_applyObjectFitStyles style_madeVisible fitting_def)

theorem processImages_fit_rules_witness:
  "declares (elements (processImages (cascade (imageSheet ''cover'' False)) [[0]] None (imageDocument '''')) [0])
     [(''object-fit'', ''cover''), (''width'', ''100%''), (''height'', ''100%''),
      (''position'', ''absolute''), (''top'', ''0''), (''left'', ''0'')]
   \<and> declares (elements (processImages (cascade (imageSheet ''contain'' False)) [[0]] None (imageDocument '''')) [0])
     [(''object-fit'', ''contain''), (''height'', ''100%''), (''width'', ''auto''),
      (''max-width'', ''none''), (''position'', ''absolute''), (''top'', ''0''),
      (''left'', ''50%''), (''transform'', ''translateX(-50%)'')]
   \<and> declares (elements (processImages (cascade (imageSheet ''fill'' False)) [[0]] None (imageDocument '''')) [0])
     [(''object-fit'', ''fill''), (''width'', ''100%''), (''height'', ''100%''), (''position'', '''')]
   \<and> declares (elements (processImages (cascade (imageSheet ''none'' False)) [[0]] None (imageDocument '''')) [0])
     [(''max-height'', ''100%''), (''width'', ''auto''), (''position'', ''absolute''),
      (''top'', ''50%''), (''left'', ''50%''), (''transform'', ''translate(-50%, -50%)'')]
   \<and> declares (elements (processImages unresolved [[0]] None (imageDocument ''scale-down'')) [0])
     [(''max-height'', ''100%''), (''width'', ''auto''), (''max-width'', ''none''),
      (''position'', ''absolute''), (''top'', ''50%''), (''left'', ''50%''),
      (''transform'', ''translate(-50%, -50%)'')]"
proof -
  have s: "[[0]] = [] @ [0::nat] # []" "[0::nat] \<notin> set []" by simp_all
  have m: "objectFit (cascade (imageSheet fit False)) ''cover'' [0] (madeVisible [0] (imageDocument [])) 
             = orElse fit ''cover''"
    "objectFit unresolved ''cover'' [0] (madeVisible [0] (imageDocument b)) = orElse b ''cover''" for fit b
    by (simp_all add: objectFit_def Let_def imageDocument_cascade imageDocument_inline unresolved_def orElse_def)
  have b: "style (elements (imageDocument []) [0]) ''position'' = ([], False)"
    by (simp add: imageDocument_def blank_def)
  show ?thesis
    using processImages_fit_rules[OF s imageDocument_leaves[of "[]"], where objectFitDefault = None
          and getComputedStyle = "cascade (imageSheet ''cover'' False)"]
      processImages_fit_rules[OF s imageDocument_leaves[of "[]"], where objectFitDefault = None
          and getComputedStyle = "cascade (imageSheet ''contain'' False)"]
      processImages_fit_rules[OF s imageDocument_leaves[of "[]"], where objectFitDefault = None
          and getComputedStyle = "cascade (imageSheet ''fill'' False)"]
      processImages_fit_rules[OF s imageDocument_leaves[of "[]"], where objectFitDefault = None
          and getComputedStyle = "cascade (imageSheet ''none'' False)"]
      processImages_fit_rules[OF s imageDocument_leaves[of "''scale-down''"], where objectFitDefault = None
          and getComputedStyle = unresolved]
    by (simp add: Let_def m orElse_def declares_def keeps_def b)
qed



section \<open>The claims about the barrier, the adapter, controls and SVG\<close>

text \<open>
  Claim C2.  For every finite collection of images and every sequence of load and error
  events after the call, the promise that \<open>preloadImages\<close> returned is never rejected; when
  it is fulfilled (with no value: the type of its value is \<open>unit\<close>), every image of the
  collection has settled, that is, it was complete at the call or its load or error event
  has fired.  Conversely, when the images of the collection are distinct and all have
  settled, the promise is fulfilled.
\<close>

theorem preloadImages_barrier:
  "returned (afterEvents complete images evs) \<noteq> Rejected e
   \<and> (returned (afterEvents complete images evs) = Fulfilled () \<longrightarrow>
        (\<forall>i\<in>set images. settled complete evs i))
   \<and> (distinct images \<and> (\<forall>i\<in>set images. settled complete evs i) \<longrightarrow>
        returned (afterEvents complete images evs) = Fulfilled ())"
  using barrier_never_rejects barrier_only_after_settled barrier_resolves by blast

theorem preloadImages_barrier_witness:
  "returned (afterEvents (\<lambda>i. i = 0) [0, 1] [ErrorEvent 1]) = Fulfilled ()
   \<and> returned (afterEvents (\<lambda>i. i = 0) [0, 1, 2] [LoadEvent 2, ErrorEvent 1]) = Fulfilled ()
   \<and> returned (afterEvents (\<lambda>i. i = 0) [0, 1] []) = Pending
   \<and> \<not> settled (\<lambda>i. i = 0) [] 1"
proof -
  have s: "distinct [0, 1::nat] \<and> (\<forall>i\<in>set [0, 1]. settled (\<lambda>i. i = 0) [ErrorEvent 1] i)"
    "distinct [0, 1, 2::nat] \<and> (\<forall>i\<in>set [0, 1, 2]. settled (\<lambda>i. i = 0) [LoadEvent 2, ErrorEvent 1] i)"
    by (simp_all add: settled_def)
  have n: "\<not> settled (\<lambda>i. i = 0) [] (1::nat)"
    by (simp add: settled_def)
  have p: "returned (afterEvents (\<lambda>i. i = 0) [0, 1] []) = Pending"
    by (simp add: returned_def afterEvents_def preloadImages_def executor_def noBarrier_def)
  from preloadImages_barrier[of "\<lambda>i. i = 0" "[0, 1]" "[ErrorEvent 1]"]
    preloadImages_barrier[of "\<lambda>i. i = 0" "[0, 1, 2]" "[LoadEvent 2, ErrorEvent 1]"]
    s n p
  show ?thesis by blast
qed

text \<open>
  Claim C7, as amended.  \<open>renderSafeHtml\<close> returns without any effect when the container
  is absent.  When the sanitizer returns, the call returns normally and the content of the
  container is the sanitized text.  When the sanitizer throws, the exception reaches the
  caller of \<open>renderSafeHtml\<close> (the function has no handler), and the previous content of
  the container is left unchanged.
\<close>

theorem renderSafeHtml_boundary:
  "renderSafeHtml sanitize html None = (Inr (), None)
   \<and> (sanitize html ALLOWED_TAGS ALLOWED_ATTR = Inr clean \<longrightarrow>
        renderSafeHtml sanitize html (Some previous) = (Inr (), Some clean))
   \<and> (sanitize html ALLOWED_TAGS ALLOWED_ATTR = Inl e \<longrightarrow>
        renderSafeHtml sanitize html (Some previous) = (Inl e, Some previous))"
  by (simp add: renderSafeHtml_def)

theorem renderSafeHtml_boundary_witness:
  "renderSafeHtml identitySanitizer ''<b>new</b>'' None = (Inr (), None)
   \<and> renderSafeHtml identitySanitizer ''<b>new</b>'' (Some ''old'') = (Inr (), Some ''<b>new</b>'')
   \<and> renderSafeHtml failingSanitizer ''<b>new</b>'' (Some ''old'') = (Inl (Exn ''sanitize failed''), Some ''old'')"
proof -
  have i: "identitySanitizer ''<b>new</b>'' ALLOWED_TAGS ALLOWED_ATTR = Inr ''<b>new</b>''"
    by (simp add: identitySanitizer_def)
  have f: "failingSanitizer ''<b>new</b>'' ALLOWED_TAGS ALLOWED_ATTR = Inl (Exn ''sanitize failed'')"
    by (simp add: failingSanitizer_def)
  from renderSafeHtml_boundary[of identitySanitizer "''<b>new</b>''" "''<b>new</b>''" "''old''"]
    renderSafeHtml_boundary[of failingSanitizer "''<b>new</b>''" _ "''old''" "Exn ''sanitize failed''"]
    i f
  show ?thesis by blast
qed

text \<open>The claim that no failure passes the boundary fails with a sanitizer that throws:
  the call ends with that exception.\<close>

theorem renderSafeHtml_throws_counterexample:
  "fst (renderSafeHtml failingSanitizer ''<b>new</b>'' (Some ''old'')) = Inl (Exn ''sanitize failed'')"
  by (simp add: renderSafeHtml_def failingSanitizer_def)

text \<open>
  Claim C9, as amended.  After \<open>hideUiControls\<close>, every element within the scope that
  matches the selector list and is an \<open>HTMLElement\<close> has the inline \<open>display none\<close>,
  \<open>visibility hidden\<close> and \<open>opacity 0\<close> at once; a matching element that is not an
  \<open>HTMLElement\<close> (an SVG element, say) is left as it was.
\<close>

theorem hideUiControls_hides:
  assumes "el \<in> set (querySelectorAll d pageElement uiSelectors)"
  shows "(isHTMLElement (elements d el) \<longrightarrow>
            declares (elements (hideUiControls pageElement d) el)
              [(''display'', ''none''), (''visibility'', ''hidden''), (''opacity'', ''0'')])
       \<and> (\<not> isHTMLElement (elements d el) \<longrightarrow>
            elements (hideUiControls pageElement d) el = elements d el)"
  using assms by (simp add: elements_hideUiControls declares_def style_setStyle parses_other)

lemma controls_matched: "querySelectorAll controlsDocument [] uiSelectors = [[0], [1]]"
  by (simp add: querySelectorAll_def descendants_def controlsDocument_def blank_def uiSelectors_def)

theorem hideUiControls_hides_witness:
  "declares (elements (hideUiControls [] controlsDocument) [0])
     [(''display'', ''none''), (''visibility'', ''hidden''), (''opacity'', ''0'')]
   \<and> elements (hideUiControls [] controlsDocument) [1] = elements controlsDocument [1]"
proof -
  have m: "[0] \<in> set (querySelectorAll controlsDocument [] uiSelectors)"
          "[1] \<in> set (querySelectorAll controlsDocument [] uiSelectors)"
    unfolding controls_matched by simp_all
  have k: "isHTMLElement (elements controlsDocument [0])" "\<not> isHTMLElement (elements controlsDocument [1])"
    by (simp_all add: controlsDocument_def blank_def)
  from hideUiControls_hides[OF m(1)] hideUiControls_hides[OF m(2)] k
  show ?thesis by blast
qed

text \<open>The claim for every matching element fails on an SVG element of class \<open>handle\<close>:
  the selector list matches it and its \<open>display\<close> is not set.\<close>

theorem hideUiControls_svg_counterexample:
  "[1] \<in> set (querySelectorAll controlsDocument [] uiSelectors)
   \<and> style (elements (hideUiControls [] controlsDocument) [1]) ''display'' = ('''', False)"
proof -
  have m: "[1] \<in> set (querySelectorAll controlsDocument [] uiSelectors)"
    unfolding controls_matched by simp
  have k: "\<not> isHTMLElement (elements controlsDocument [1])"
    "style (elements controlsDocument [1]) ''display'' = ([], False)"
    by (simp_all add: controlsDocument_def blank_def)
  have "elements (hideUiControls [] controlsDocument) [1] = elements controlsDocument [1]"
    using k(1) by (simp only: elements_hideUiControls simp_thms if_False)
  with m k(2) show ?thesis by simp
qed

lemma elements_processSvgElements_polygon:
  assumes "a = ''fill'' \<or> a = ''stroke'' \<or> a = ''stroke-width''"
    and "svg \<in> set svgElements" and "polygon \<in> set (querySelectorAll d svg [TypeSel ''polygon''])"
  shows "attributes (elements (processSvgElements svgElements d) polygon) a
       = attributes (processPolygon (elements d polygon)) a"
  using assms(2,3) unfolding processSvgElements_def polygon_attributes_fold[OF assms(1)]
  by auto

text \<open>
  Claim C8, as amended.  For every polygon descendant of an SVG root of the collection,
  after \<open>processSvgElements\<close> each of \<open>fill\<close>, \<open>stroke\<close> and \<open>stroke-width\<close> that was absent or
  empty has its default (\<open>#E2E8F0\<close>, \<open>#CBD5E1\<close>, \<open>1\<close>), and each that had a non-empty value has
  that value still.  So a polygon with none of the three receives exactly the defaults.
\<close>

theorem processSvgElements_polygon_defaults:
  assumes "svg \<in> set svgElements" and "polygon \<in> set (querySelectorAll d svg [TypeSel ''polygon''])"
  shows "let before = attributes (elements d polygon);
             after = attributes (elements (processSvgElements svgElements d) polygon)
         in after ''fill'' = (if falsy (before ''fill'') then Some ''#E2E8F0'' else before ''fill'')
          \<and> after ''stroke'' = (if falsy (before ''stroke'') then Some ''#CBD5E1'' else before ''stroke'')
          \<and> after ''stroke-width'' =
              (if falsy (before ''stroke-width'') then Some ''1'' else before ''stroke-width'')"
  by (simp add: Let_def elements_processSvgElements_polygon[OF _ assms] attributes_processPolygon
      orDefault_def)

lemma svg_polygons: "querySelectorAll svgDocument [] [TypeSel ''polygon''] = [[0], [1]]"
  by (simp add: querySelectorAll_def descendants_def svgDocument_def blank_def)

theorem processSvgElements_polygon_defaults_witness:
  "attributes (elements (processSvgElements [[]] svgDocument) [0]) ''fill'' = Some ''#E2E8F0''
   \<and> attributes (elements (processSvgElements [[]] svgDocument) [0]) ''stroke'' = Some ''#CBD5E1''
   \<and> attributes (elements (processSvgElements [[]] svgDocument) [0]) ''stroke-width'' = Some ''1''
   \<and> attributes (elements (processSvgElements [[]] svgDocument) [1]) ''stroke'' = Some ''#000''"
proof -
  have h: "[] \<in> set [[]::ref]" by simp
  have m: "[0] \<in> set (querySelectorAll svgDocument [] [TypeSel ''polygon''])"
          "[1] \<in> set (querySelectorAll svgDocument [] [TypeSel ''polygon''])"
    unfolding svg_polygons by simp_all
  have b: "attributes (elements svgDocument [0]) = Map.empty"
          "attributes (elements svgDocument [1]) ''stroke'' = Some ''#000''"
    by (simp_all add: svgDocument_def blank_def)
  from processSvgElements_polygon_defaults[OF h m(1)] processSvgElements_polygon_defaults[OF h m(2)] b
  show ?thesis by (simp add: Let_def falsy_def)
qed

text \<open>The claim that an attribute the polygon already has is left untouched fails on a
  polygon whose \<open>fill\<close> attribute is present and empty: it is replaced by the default.\<close>

theorem processSvgElements_empty_fill_counterexample:
  "[1] \<in> set (querySelectorAll svgDocument [] [TypeSel ''polygon''])
   \<and> attributes (elements svgDocument [1]) ''fill'' = Some ''''
   \<and> attributes (elements (processSvgElements [[]] svgDocument) [1]) ''fill'' = Some ''#E2E8F0''"
proof -
  have h: "[] \<in> set [[]::ref]" by simp
  have m: "[1] \<in> set (querySelectorAll svgDocument [] [TypeSel ''polygon''])"
    unfolding svg_polygons by simp
  have b: "attributes (elements svgDocument [1]) ''fill'' = Some []"
    by (simp add: svgDocument_def blank_def)
  from elements_processSvgElements_polygon[OF _ h m, of "''fill''"] m b
  show ?thesis by (simp add: attributes_processPolygon orDefault_def falsy_def)
qed

text \<open>
  Claim C4 at an SVG root whose width attribute is \<open>100%\<close> and whose inline width is unset:
  the attribute is present, and \<open>processSvgElements\<close> assigns \<open>100%px\<close>, which is no value of
  \<open>width\<close>, so that nothing is written and the inline width stays unset.  The height
  attribute \<open>24\<close> is copied as \<open>24px\<close>, and a width attribute \<open>300\<close> is copied as \<open>300px\<close>.
  Without a width attribute the value assigned is \<open>nullpx\<close>, which is dropped as well: the
  inline width is left as it was.
\<close>

theorem processSvgElements_percent_width:
  "getAttribute (elements (sizedSvgDocument ''100%'') []) ''width'' = Some ''100%''
   \<and> getPropertyValue (elements (sizedSvgDocument ''100%'') []) ''width'' = ''''
   \<and> getPropertyValue (elements (processSvgElements [[]] (sizedSvgDocument ''100%'')) []) ''width'' = ''''
   \<and> getPropertyValue (elements (processSvgElements [[]] (sizedSvgDocument ''100%'')) []) ''height'' = ''24px''
   \<and> getPropertyValue (elements (processSvgElements [[]] (sizedSvgDocument ''300'')) []) ''width'' = ''300px''
   \<and> getAttribute (elements svgDocument []) ''width'' = None
   \<and> getPropertyValue (elements (processSvgElements [[]] svgDocument) []) ''width'' = ''''"
proof -
  have p: "\<not> sizeValue ''100%px''" "sizeValue ''24px''" "sizeValue ''300px''" "\<not> sizeValue ''nullpx''"
    by code_simp+
  have q: "[] \<notin> set (querySelectorAll d [] sels)" for d sels
    using querySelectorAll_descendants[of "[]" d "[]" sels] descendants_neq[of "[]" d "[]"] by blast
  have e: "elements (processSvgElements [[]] d) [] = processSvgRoot (elements d [])" for d
    by (simp add: processSvgElements_def elements_processSvgElement q)
  have a: "attributes (elements (sizedSvgDocument w) []) = [''height'' \<mapsto> ''24'', ''width'' \<mapsto> w]"
    "style (elements (sizedSvgDocument w) []) = (\<lambda>k. ([], False))"
    "attributes (elements svgDocument []) = [''height'' \<mapsto> ''24'']"
    "style (elements svgDocument []) = (\<lambda>k. ([], False))" for w
    by (simp_all add: sizedSvgDocument_def svgDocument_def blank_def)
  show ?thesis
    by (simp add: e getPropertyValue_def getAttribute_def style_processSvgRoot a toString_def p)
qed

section \<open>The claim about text blocks\<close>

lemma querySelector_cong:
  "tree d' = tree d \<Longrightarrow> (\<And>q s. s \<in> set sels \<Longrightarrow> matches s (elements d' q) = matches s (elements d q)) \<Longrightarrow>
   querySelector d' r sels = querySelector d r sels"
  using querySelectorAll_cong[of d' d sels r] by (simp add: querySelector_def)

lemma descendants_cong: "tree d' = tree d \<Longrightarrow> descendants d' = descendants d"
  by (simp add: descendants_def fun_eq_iff)

lemma paints_scenario: "paints ''rgb(200,200,200)''"
  by (simp add: paints_def)

lemma restyled_refl [simp]: "restyled d d"
  by (simp add: restyled_def)

lemma restyledI:
  assumes "tree d' = tree d"
    and "\<And>r. tagName (elements d' r) = tagName (elements d r)"
    and "\<And>r. isHTMLElement (elements d' r) = isHTMLElement (elements d r)"
    and "\<And>r. classList (elements d' r) = classList (elements d r)"
    and "\<And>r n. n \<noteq> ''crossorigin'' \<Longrightarrow> attributes (elements d' r) n = attributes (elements d r) n"
  shows "restyled d d'"
  using assms by (simp add: restyled_def)

text \<open>
  Claim C5.  Take a text block for which the engine resolves the background colour
  \<open>rgb(200,200,200)\<close> (and resolves a colour that paints once that colour is declared inline
  with highest precedence), whose content element (the first descendant of class
  \<open>element-content\<close>) has the inline colour \<open>rgb(10,10,10)\<close>, and an element inside the
  content element that has no inline colour; all three are \<open>HTMLElement\<close>s.  After
  \<open>processTextElements\<close> on the block, the block declares
  \<open>background-color: rgb(200,200,200)\<close> and \<open>padding: 8px\<close>, the content element declares
  \<open>background-color: transparent\<close>, and the inner element declares \<open>color: rgb(10,10,10)\<close>,
  each with the important flag.
\<close>

theorem processTextElements_scenario:
  assumes block: "isHTMLElement (elements d block)"
    and bg: "getComputedStyle d block ''background-color'' = ''rgb(200,200,200)''"
    and declared: "\<forall>d'. restyled d d'
        \<and> style (elements d' block) ''background-color'' = (''rgb(200,200,200)'', True)
        \<longrightarrow> paints (getComputedStyle d' block ''background-color'')"
    and content: "querySelector d block [ClassSel ''element-content''] = Some content"
      "isHTMLElement (elements d content)"
    and colour: "getPropertyValue (elements d content) ''color'' = ''rgb(10,10,10)''"
    and grandchild: "grandchild \<in> set (descendants d content)"
      "isHTMLElement (elements d grandchild)"
      "getPropertyValue (elements d grandchild) ''color'' = ''''"
  shows "let after = processTextElements getComputedStyle [block] d
         in declaresImportant (elements after block)
              [(''background-color'', ''rgb(200,200,200)''), (''padding'', ''8px'')]
          \<and> declaresImportant (elements after content) [(''background-color'', ''transparent'')]
          \<and> declaresImportant (elements after grandchild) [(''color'', ''rgb(10,10,10)'')]"
proof -
  let ?d1 = "processBlockBackground getComputedStyle block d"
  let ?d2 = "fold (inheritColor content) (querySelectorAll ?d1 content [Universal]) ?d1"
  let ?d3 = "applyFontStyles content ?d2"
  let ?after = "update content (setProperty ''background-color'' ''transparent'' ''important'') ?d3"
  note sp = style_setProperty_important parses_other
  have cb: "content \<in> set (descendants d block)"
    using content(1) by (rule querySelector_descendants)
  then have c_ne_b: "content \<noteq> block" by (rule descendants_neq)
  have g_ne_c: "grandchild \<noteq> content" using grandchild(1) by (rule descendants_neq)
  have "grandchild \<in> set (descendants d block)" using cb grandchild(1) by (rule descendants_trans)
  then have g_ne_b: "grandchild \<noteq> block" by (rule descendants_neq)
  have b_not_desc: "block \<notin> set (descendants d content)" using cb by (rule descendants_asym)
  have c_not_desc: "content \<notin> set (descendants d content)" using descendants_neq by blast
  have e1: "elements ?d1 r =
      (if r = block then setProperty ''padding'' ''8px'' ''important''
             (setProperty ''background-color'' ''rgb(200,200,200)'' ''important'' (elements d block))
       else elements d r)" for r
    by (simp add: elements_processBlockBackground bg paints_scenario)
  have q1: "querySelector ?d1 block [ClassSel ''element-content''] = Some content"
    unfolding content(1)[symmetric]
    by (rule querySelector_cong) (auto simp: e1)
  have "descendants ?d1 = descendants d"
    by (rule descendants_cong) simp
  then have ds: "querySelectorAll ?d1 content [Universal] = descendants d content"
    by (simp add: querySelectorAll_Universal)
  have c1: "getPropertyValue (elements ?d1 content) ''color'' = ''rgb(10,10,10)''"
    using c_ne_b colour by (simp add: e1)
  have e2: "elements ?d2 r =
      (if r \<in> set (descendants d content) \<and> isHTMLElement (elements ?d1 r)
            \<and> getPropertyValue (elements ?d1 r) ''color'' = []
       then setProperty ''color'' ''rgb(10,10,10)'' ''important'' (elements ?d1 r)
       else elements ?d1 r)" for r
    unfolding ds using elements_fold_inheritColor[OF c_not_desc, of ?d1 r] by (simp add: c1)
  have e3: "elements ?d3 r =
      (if r = content
       then reassert ''font-weight'' (reassert ''font-size'' (reassert ''font-family'' (elements ?d2 content)))
       else elements ?d2 r)" for r
    by (simp add: elements_applyFontStyles)
  have "restyled d ?d3"
    by (rule restyledI) (simp_all add: e3 e2 e1)
  moreover have "style (elements ?d3 block) ''background-color'' = (''rgb(200,200,200)'', True)"
    using c_ne_b b_not_desc by (simp add: e3 e2 e1 sp)
  ultimately have bg3: "paints (getComputedStyle ?d3 block ''background-color'')"
    using declared by blast
  have "processContentElement getComputedStyle content block ?d1 = ?after"
    using bg3 by (simp add: processContentElement_def Let_def c1 del: elements_update)
  moreover have "isHTMLElement (elements ?d1 content)"
    using c_ne_b content(2) by (simp add: e1)
  ultimately have after: "processTextElements getComputedStyle [block] d = ?after"
    by (simp add: processTextElements_def processTextElement_def block q1 Let_def)
  have "style (elements ?after block) ''background-color'' = (''rgb(200,200,200)'', True)"
       "style (elements ?after block) ''padding'' = (''8px'', True)"
    using c_ne_b b_not_desc by (simp_all add: e3 e2 e1 sp)
  moreover have "style (elements ?after content) ''background-color'' = (''transparent'', True)"
    by (simp add: sp)
  moreover have "style (elements ?after grandchild) ''color'' = (''rgb(10,10,10)'', True)"
    using g_ne_c g_ne_b grandchild by (simp add: e3 e2 e1 sp)
  ultimately show ?thesis
    unfolding after Let_def declaresImportant_def by simp
qed

lemma text_content: "querySelector textDocument [] [ClassSel ''element-content''] = Some [0]"
  by (simp add: querySelector_def querySelectorAll_def descendants_def textDocument_def blank_def)

lemma text_descendants: "descendants textDocument [0] = [[0, 0]]"
  by (simp add: descendants_def textDocument_def)

theorem processTextElements_scenario_witness:
  "declaresImportant (elements (processTextElements (cascade textSheet) [[]] textDocument) [])
     [(''background-color'', ''rgb(200,200,200)''), (''padding'', ''8px'')]
   \<and> declaresImportant (elements (processTextElements (cascade textSheet) [[]] textDocument) [0])
        [(''background-color'', ''transparent'')]
   \<and> declaresImportant (elements (processTextElements (cascade textSheet) [[]] textDocument) [0, 0])
        [(''color'', ''rgb(10,10,10)'')]"
proof -
  have a: "isHTMLElement (elements textDocument [])"
    "cascade textSheet textDocument [] ''background-color'' = ''rgb(200,200,200)''"
    "isHTMLElement (elements textDocument [0])"
    "getPropertyValue (elements textDocument [0]) ''color'' = ''rgb(10,10,10)''"
    "isHTMLElement (elements textDocument [0, 0])"
    "getPropertyValue (elements textDocument [0, 0]) ''color'' = []"
    by (simp_all add: textDocument_def blank_def getPropertyValue_def cascade_def textSheet_def
        noSheet_def computedValue_def Let_def)
  have c: "\<forall>d'. restyled textDocument d'
        \<and> style (elements d' []) ''background-color'' = (''rgb(200,200,200)'', True)
        \<longrightarrow> paints (cascade textSheet d' [] ''background-color'')"
    by (simp add: cascade_def Let_def computedValue_def paints_def)
  have g: "[0, 0] \<in> set (descendants textDocument [0])"
    unfolding text_descendants by simp
  from processTextElements_scenario[where getComputedStyle = "cascade textSheet" and d = textDocument
      and block = "[]", OF a(1,2) c text_content a(3,4) g a(5,6)]
  show ?thesis by (simp add: Let_def)
qed

section \<open>Proofs: idempotence of a fold over columns\<close>

lemma frame_fields [simp]:
  "tree (frame d) = tree d"
  "isHTMLElement (elements (frame d) r) = isHTMLElement (elements d r)"
  "classList (elements (frame d) r) = classList (elements d r)"
  "tagName (elements (frame d) r) = tagName (elements d r)"
  "attributes (elements (frame d) r) = Map.empty"
  "style (elements (frame d) r) = (\<lambda>k. ([], False))"
  by (simp_all add: frame_def)

lemma frame_eq_iff:
  "frame d = frame d' \<longleftrightarrow>
     tree d = tree d' \<and>
     (\<forall>r. tagName (elements d r) = tagName (elements d' r)
        \<and> isHTMLElement (elements d r) = isHTMLElement (elements d' r)
        \<and> classList (elements d r) = classList (elements d' r))"
  (is "?L \<longleftrightarrow> ?R")
proof
  assume L: ?L
  have "tree d = tree (frame d)" by simp
  also have "\<dots> = tree d'" by (simp add: L)
  finally have t: "tree d = tree d'" .
  have "tagName (elements d r) = tagName (elements d' r)
        \<and> isHTMLElement (elements d r) = isHTMLElement (elements d' r)
        \<and> classList (elements d r) = classList (elements d' r)" for r
    using frame_fields(2-4)[of d r] frame_fields(2-4)[of d' r] by (simp add: L)
  with t show ?R by simp
next
  assume R: ?R
  show ?L
  proof (rule document.equality)
    show "elements (frame d) = elements (frame d')"
    proof
      fix r
      from R show "elements (frame d) r = elements (frame d') r"
        by (intro element.equality) simp_all
    qed
  qed (use R in simp_all)
qed






section \<open>Proofs: idempotence of the normalizers\<close>

lemma matches_assign [simp]: "matches s (assign kvs e) = matches s e"
  by (cases s) simp_all





subsection \<open>Controls\<close>


lemma tree_fold_hideElement [simp]: "tree (fold hideElement qs d) = tree d"
  by (induction qs arbitrary: d) simp_all


subsection \<open>Shapes\<close>

lemma tree_processShapeElement [simp]: "tree (processShapeElement a d) = tree d"
  by (simp add: processShapeElement_def split: option.splits)



subsection \<open>SVG\<close>


subsection \<open>Folds that keep an invariant\<close>


subsection \<open>Images\<close>











subsection \<open>Text blocks: the colour column\<close>









subsection \<open>Text blocks: the font columns\<close>


subsection \<open>Text blocks: the columns of the background and the padding\<close>


subsection \<open>Text blocks: one step\<close>


lemma isHTMLElement_fold_inheritColor [simp]:
  "isHTMLElement (elements (fold (inheritColor c) ns d) r) = isHTMLElement (elements d r)"
  by (induction ns arbitrary: d) (simp_all add: elements_inheritColor)

lemma attributes_fold_inheritColor [simp]:
  "attributes (elements (fold (inheritColor c) ns d) r) = attributes (elements d r)"
  by (induction ns arbitrary: d) (simp_all add: elements_inheritColor)

lemma tagName_fold_inheritColor [simp]:
  "tagName (elements (fold (inheritColor c) ns d) r) = tagName (elements d r)"
  by (induction ns arbitrary: d) (simp_all add: elements_inheritColor)

lemma classList_fold_inheritColor [simp]:
  "classList (elements (fold (inheritColor c) ns d) r) = classList (elements d r)"
  by (induction ns arbitrary: d) (simp_all add: elements_inheritColor)


text \<open>With an engine that resolves nothing, \<open>processContentElement\<close> stops before its
  last write: that is the document in which the engine is asked about the block.\<close>

lemma paints_unresolved [simp]: "\<not> paints (unresolved d r k)"
  by (simp add: paints_def unresolved_def)


lemma tree_asked [simp]: "tree (processContentElement unresolved c p d) = tree d"
  by (simp add: processContentElement_def Let_def)

lemma fields_asked [simp]:
  "tagName (elements (processContentElement unresolved c p d) r) = tagName (elements d r)"
  "isHTMLElement (elements (processContentElement unresolved c p d) r) = isHTMLElement (elements d r)"
  "classList (elements (processContentElement unresolved c p d) r) = classList (elements d r)"
  "attributes (elements (processContentElement unresolved c p d) r) = attributes (elements d r)"
  by (simp_all add: processContentElement_def Let_def elements_applyFontStyles)



lemma frame_frame [simp]: "frame (frame d) = frame d"
  by (simp add: frame_eq_iff)

lemma descendants_frame [simp]: "descendants (frame d) = descendants d"
  by (rule descendants_cong) simp

lemma querySelector_frame [simp]:
  "querySelector (frame d) a [ClassSel c] = querySelector d a [ClassSel c]"
  by (rule querySelector_cong) auto

lemma inheritColumn_frame [simp]: "inheritColumn (frame d) = inheritColumn d"
  by (auto simp: inheritColumn_def fun_eq_iff split: option.splits)

lemma fontCell_frame [simp]: "fontCell (frame d) = fontCell d"
  by (auto simp: fontCell_def fun_eq_iff)

lemma paintColumns_frame [simp]: "paintColumns (frame d) = paintColumns d"
  by (auto simp: paintColumns_def fun_eq_iff split: option.splits)



lemma fields_processBlockBackground [simp]:
  "tagName (elements (processBlockBackground gcs a d) r) = tagName (elements d r)"
  "isHTMLElement (elements (processBlockBackground gcs a d) r) = isHTMLElement (elements d r)"
  "classList (elements (processBlockBackground gcs a d) r) = classList (elements d r)"
  "attributes (elements (processBlockBackground gcs a d) r) = attributes (elements d r)"
  by (simp_all add: elements_processBlockBackground)



subsection \<open>Text blocks: what the engine resolves during a run\<close>






subsection \<open>Text blocks: idempotence\<close>



section \<open>The claim about idempotence\<close>

subsection \<open>Engines of the usual kind are steady\<close>








end
